theory Spec2Isabelle
  imports Main "HOL-Library.AList"
begin

section \<open>Data model of \<^verbatim>\<open>src/context.ts\<close>\<close>

subsection \<open>JavaScript objects used as dictionaries\<close>

text \<open>
  An object is the list of its own properties in the order of their creation.  Reading
  \<open>obj[k]\<close> finds an own property or else a property of \<open>Object.prototype\<close>, which
  every object literal inherits; all of these inherited values are truthy (functions, and
  the prototype itself under \<open>__proto__\<close>) and have none of the fields \<open>path\<close>, \<open>module\<close> or
  \<open>providers\<close>.  Writing \<open>obj[k] = v\<close> is \<open>AList.update k v obj\<close>: a new key goes to the
  end, an existing key keeps its place.  (The code writes only keys that it has just
  found falsy, so it never writes an inherited name.)  Enumeration (\<open>for ... in\<close>,
  \<open>Object.keys\<close>, lodash's \<open>values\<close>) lists the own keys that are array indices first, in
  ascending numeric order, and then the other keys in the order of creation.  A value
  typed \<open>any\<close> is a \<open>json\<close> value.  Several classes have fields called \<open>name\<close>, \<open>type\<close>,
  \<open>path\<close> or \<open>config\<close>; the record fields carry a prefix that tells them apart.
\<close>

type_synonym 'v obj = "(string \<times> 'v) list"

datatype json = JNull | JBool bool | JNum int | JStr string
  | JArr "json list" | JObj "(string \<times> json) list"

definition Object_prototype :: "string list" where
  "Object_prototype =
     [''constructor'', ''__defineGetter__'', ''__defineSetter__'', ''hasOwnProperty'',
      ''__lookupGetter__'', ''__lookupSetter__'', ''isPrototypeOf'',
      ''propertyIsEnumerable'', ''toString'', ''valueOf'', ''__proto__'',
      ''toLocaleString'']"

datatype 'v property = Own 'v | Inherited string | Undefined

definition js_get :: "'v obj \<Rightarrow> string \<Rightarrow> 'v property" where
  "js_get obj k =
     (case map_of obj k of
        Some v \<Rightarrow> Own v
      | None \<Rightarrow> if k \<in> set Object_prototype then Inherited k else Undefined)"

text \<open>Own values are objects throughout, so a property is falsy only when it is undefined.\<close>

fun truthy :: "'v property \<Rightarrow> bool" where
  "truthy (Own v) = True"
| "truthy (Inherited k) = True"
| "truthy Undefined = False"

text \<open>An array index is a canonical decimal numeral below \<open>2\<^sup>3\<^sup>2 - 1\<close>.\<close>

definition digit_value :: "char \<Rightarrow> nat" where
  "digit_value c = length (takeWhile (\<lambda>d. d \<noteq> c) ''0123456789'')"

definition index_value :: "string \<Rightarrow> nat" where
  "index_value s = foldl (\<lambda>n c. 10 * n + digit_value c) 0 s"

definition is_array_index :: "string \<Rightarrow> bool" where
  "is_array_index s =
     (case s of
        [] \<Rightarrow> False
      | c # cs \<Rightarrow>
          if c = CHR ''0'' then cs = []
          else list_all (\<lambda>d. d \<in> set ''0123456789'') s \<and> index_value s < 4294967295)"

definition js_entries :: "'v obj \<Rightarrow> 'v obj" where
  "js_entries obj =
     sort_key (\<lambda>kv. index_value (fst kv)) (filter (\<lambda>kv. is_array_index (fst kv)) obj)
       @ filter (\<lambda>kv. \<not> is_array_index (fst kv)) obj"

definition values_obj :: "'v obj \<Rightarrow> 'v list" where
  "values_obj obj = map snd (js_entries obj)"

subsection \<open>Types\<close>

text \<open>
  \<open>ModuleConfig\<close> and \<open>Module\<close> come from \<^verbatim>\<open>types/module\<close>; the fields are the ones
  \<open>getModules\<close> reads (\<open>config.name\<close>, \<open>config.type\<close>, \<open>config.services\<close>, \<open>module.name\<close>,
  \<open>module.path\<close>) and the path the loader records.  \<open>config.services\<close> may be undefined.
\<close>

record ModuleConfig =
  cfg_name :: string
  cfg_type :: string
  cfg_path :: string
  cfg_services :: "json obj option"

record Module =
  mod_name :: string
  mod_type :: string
  mod_path :: string
  mod_config :: ModuleConfig

record Service =
  service_module :: Module
  service_config :: json

type_synonym ModuleMap = "Module obj"
type_synonym ServiceMap = "Service obj"

text \<open>
  The keys of \<open>PluginActions\<close> are the three keys of the object literal that initialises
  \<open>actionHandlers\<close> in the constructor.  A plugin's method does not receive \<open>this\<close> or the
  context in the model, so the wrapper \<open>(...args) => actionHandler.apply(plugin, args)\<close>
  that \<open>registerPlugin\<close> stores is the method itself.
\<close>

datatype ActionName = ParseModule | GetModuleBuildStatus | BuildModule

datatype ActionHandler =
  ParseModuleHandler "ModuleConfig \<Rightarrow> Module"
  | GetModuleBuildStatusHandler "Module \<Rightarrow> json"
  | BuildModuleHandler "Module \<Rightarrow> json \<Rightarrow> json"

record PluginInterface =
  plugin_name :: string
  supportedModuleTypes :: "string list"
  parseModule :: "(ModuleConfig \<Rightarrow> Module) option"
  getModuleBuildStatus :: "(Module \<Rightarrow> json) option"
  buildModule :: "(Module \<Rightarrow> json \<Rightarrow> json) option"

text \<open>\<open>plugin[action]\<close>\<close>

fun pluginAction :: "PluginInterface \<Rightarrow> ActionName \<Rightarrow> ActionHandler option" where
  "pluginAction plugin ParseModule = map_option ParseModuleHandler (parseModule plugin)"
| "pluginAction plugin GetModuleBuildStatus =
     map_option GetModuleBuildStatusHandler (getModuleBuildStatus plugin)"
| "pluginAction plugin BuildModule = map_option BuildModuleHandler (buildModule plugin)"

text \<open>
  Modelled from the spec: \<open>pluginActionNames\<close> of \<^verbatim>\<open>types/plugin\<close>, the recognized
  capability names (parse-module, get-build-status, build-module).
\<close>

definition pluginActionNames :: "ActionName list" where
  "pluginActionNames = [ParseModule, GetModuleBuildStatus, BuildModule]"

fun action_string :: "ActionName \<Rightarrow> string" where
  "action_string ParseModule = ''parseModule''"
| "action_string GetModuleBuildStatus = ''getModuleBuildStatus''"
| "action_string BuildModule = ''buildModule''"

record Provider =
  provider_type :: string

record EnvironmentConfig =
  providers :: "Provider obj"

record ProjectConfig =
  environments :: "EnvironmentConfig obj"

record Environment =
  env_name :: string
  env_namespace :: "string option"
  env_config :: "EnvironmentConfig property"

text \<open>
  Errors are values.  The three classes of \<^verbatim>\<open>exceptions\<close> carry a message and a detail
  object; \<open>ValidationError\<close> is what \<open>Joi.attempt\<close> throws, \<open>TypeError\<close> what the runtime
  throws on calling or reading through \<open>undefined\<close>.  \<open>previous\<close> and \<open>pathA\<close> of the
  details are read from a property that may be inherited.
\<close>

datatype detail =
  NoDetail
  | EnvironmentDetail string string
  | PluginConflict "PluginInterface property" PluginInterface
  | ModulePaths "string option" string
  | ServiceModules string string string
  | HandlerRequest ActionName "string option"
  | EnvHandlerRequest ActionName "string option" string

datatype error =
  ConfigurationError string detail
  | ParameterError string detail
  | PluginError string detail
  | ValidationError string
  | TypeError string

record ParsedPath =
  dir :: string
  base :: string

text \<open>
  Everything \<^verbatim>\<open>context.ts\<close> imports and does not define is a field of \<open>Externals\<close>:
  the two constants, the identifier grammar behind \<open>JoiIdentifier()\<close>, the four built-in
  plugin classes (each given by the plugin its constructor yields), the loaders, the
  ignore matcher, the directory scanner (the finite sequence of the paths it yields under
  a filter), \<open>parse\<close> and \<open>relative\<close> of the path library, and lodash's \<open>pick\<close> at the two
  types it is used at (what it returns is a value of the library).
\<close>

record Externals =
  DEFAULT_NAMESPACE :: string
  MODULE_CONFIG_FILENAME :: string
  JoiIdentifier :: "string \<Rightarrow> bool"
  GenericModuleHandler :: PluginInterface
  ContainerModuleHandler :: PluginInterface
  GenericFunctionModuleHandler :: PluginInterface
  NpmPackageModuleHandler :: PluginInterface
  loadProjectConfig :: "string \<Rightarrow> error + ProjectConfig"
  loadModuleConfig :: "string \<Rightarrow> error + ModuleConfig"
  getIgnorer :: "string \<Rightarrow> string \<Rightarrow> bool"
  scanDirectory :: "string \<Rightarrow> (string \<Rightarrow> bool) \<Rightarrow> string list"
  parse :: "string \<Rightarrow> ParsedPath"
  relative :: "string \<Rightarrow> string \<Rightarrow> string"
  pickModules :: "ModuleMap \<Rightarrow> string list \<Rightarrow> json"
  pickServices :: "ServiceMap option \<Rightarrow> string list \<Rightarrow> json"

definition builtinPlugins :: "Externals \<Rightarrow> PluginInterface list" where
  "builtinPlugins ext =
     [GenericModuleHandler ext, ContainerModuleHandler ext,
      GenericFunctionModuleHandler ext, NpmPackageModuleHandler ext]"

text \<open>
  The fields of the class.  \<open>environment\<close>, \<open>namespace\<close>, \<open>modules\<close> and \<open>services\<close> are
  undefined until assigned.  A plugin factory is given by the plugin it returns.
\<close>

record GardenContext =
  projectRoot :: string
  config :: ProjectConfig
  environment :: "string option"
  namespace :: "string option"
  plugins :: "PluginInterface obj"
  actionHandlers :: "ActionName \<Rightarrow> ActionHandler obj"
  modules :: "ModuleMap option"
  services :: "ServiceMap option"

section \<open>Environment\<close>

text \<open>
  \<open>String.prototype.split\<close> on a one-character separator, and \<open>Array.prototype.join\<close>.
  In \<open>setEnvironment\<close>, \<open>joined || DEFAULT_NAMESPACE\<close> takes the default for the empty
  string, and \<open>!this.config.environments[name]\<close> is a test of truthiness, which an
  inherited property passes.
\<close>

fun split :: "char \<Rightarrow> string \<Rightarrow> string list" where
  "split d [] = [[]]"
| "split d (c # cs) =
     (let ps = split d cs in if c = d then [] # ps else (c # hd ps) # tl ps)"

fun join :: "string \<Rightarrow> string list \<Rightarrow> string" where
  "join d [] = []"
| "join d [p] = p"
| "join d (p # q # ps) = p @ d @ join d (q # ps)"

definition setEnvironment ::
  "Externals \<Rightarrow> string \<Rightarrow> GardenContext \<Rightarrow> error + ((string \<times> string) \<times> GardenContext)" where
  "setEnvironment ext selector ctx =
     (let parts = split (CHR ''.'') selector;
          name = hd parts;
          joined = join ''.'' (tl parts);
          namespace' = (if joined = [] then DEFAULT_NAMESPACE ext else joined)
      in if truthy (js_get (environments (config ctx)) name)
         then Inr ((name, namespace'),
                   ctx\<lparr>environment := Some name, namespace := Some namespace'\<rparr>)
         else Inl (ParameterError (''Could not find environment '' @ selector)
                     (EnvironmentDetail name namespace')))"

text \<open>\<open>!this.environment\<close> holds for undefined and for the empty string.\<close>

definition getEnvironment :: "GardenContext \<Rightarrow> error + Environment" where
  "getEnvironment ctx =
     (case environment ctx of
        None \<Rightarrow> Inl (PluginError ''Environment has not been set'' NoDetail)
      | Some name \<Rightarrow>
          if name = [] then Inl (PluginError ''Environment has not been set'' NoDetail)
          else Inr \<lparr>env_name = name, env_namespace = namespace ctx,
                    env_config = js_get (environments (config ctx)) name\<rparr>)"

section \<open>Plugin registry\<close>

text \<open>
  \<open>Joi.attempt(value, schema)\<close> returns the value when it satisfies the schema and throws
  Joi's own validation error otherwise.
\<close>

definition Joi_attempt :: "(string \<Rightarrow> bool) \<Rightarrow> string \<Rightarrow> error + string" where
  "Joi_attempt schema v =
     (if schema v then Inr v else Inl (ValidationError v))"

definition storeHandler :: "PluginInterface \<Rightarrow> string \<Rightarrow> GardenContext \<Rightarrow> ActionName \<Rightarrow> GardenContext" where
  "storeHandler plugin pluginName ctx action =
     (case pluginAction plugin action of
        None \<Rightarrow> ctx
      | Some actionHandler \<Rightarrow>
          ctx\<lparr>actionHandlers := (actionHandlers ctx)
                 (action := AList.update pluginName actionHandler (actionHandlers ctx action))\<rparr>)"

text \<open>\<open>if (this.plugins[pluginName])\<close> is a test of truthiness on an object literal.\<close>

definition registerPlugin :: "Externals \<Rightarrow> PluginInterface \<Rightarrow> GardenContext \<Rightarrow> error + GardenContext" where
  "registerPlugin ext plugin ctx =
     (case Joi_attempt (JoiIdentifier ext) (plugin_name plugin) of
        Inl e \<Rightarrow> Inl e
      | Inr pluginName \<Rightarrow>
          (let previous = js_get (plugins ctx) pluginName
           in if truthy previous
              then Inl (PluginError (''Plugin '' @ pluginName @ '' declared more than once'')
                          (PluginConflict previous plugin))
              else Inr (foldl (storeHandler plugin pluginName)
                          (ctx\<lparr>plugins := AList.update pluginName plugin (plugins ctx)\<rparr>)
                          pluginActionNames)))"

text \<open>The constructor: empty registry, the built-in plugins in order, then the project
  configuration.  \<open>config\<close> is assigned last; until then the record holds an empty
  configuration, which nothing reads.\<close>

fun registerPlugins :: "Externals \<Rightarrow> PluginInterface list \<Rightarrow> GardenContext \<Rightarrow> error + GardenContext" where
  "registerPlugins ext [] ctx = Inr ctx"
| "registerPlugins ext (p # ps) ctx =
     (case registerPlugin ext p ctx of
        Inl e \<Rightarrow> Inl e
      | Inr ctx' \<Rightarrow> registerPlugins ext ps ctx')"

definition constructor :: "Externals \<Rightarrow> string \<Rightarrow> error + GardenContext" where
  "constructor ext root =
     (case registerPlugins ext (builtinPlugins ext)
             \<lparr>projectRoot = root, config = \<lparr>environments = []\<rparr>,
              environment = None, namespace = None,
              plugins = [], actionHandlers = (\<lambda>_. []),
              modules = None, services = None\<rparr> of
        Inl e \<Rightarrow> Inl e
      | Inr ctx \<Rightarrow>
          (case loadProjectConfig ext root of
             Inl e \<Rightarrow> Inl e
           | Inr cfg \<Rightarrow> Inr (ctx\<lparr>config := cfg\<rparr>)))"

section \<open>Dispatch\<close>

text \<open>\<open>values(this.plugins)\<close> is the enumeration of the plugin map; \<open>if (moduleType)\<close>
  holds for a string that is not empty.\<close>

definition getAllPlugins :: "string option \<Rightarrow> GardenContext \<Rightarrow> PluginInterface list" where
  "getAllPlugins moduleType ctx =
     (let allPlugins = values_obj (plugins ctx)
      in case moduleType of
           None \<Rightarrow> allPlugins
         | Some t \<Rightarrow>
             if t = [] then allPlugins
             else filter (\<lambda>p. t \<in> set (supportedModuleTypes p)) allPlugins)"

text \<open>\<open>env.config.providers\<close> is undefined on an inherited value, and lodash's \<open>values\<close>
  of undefined is the empty array; reading it from undefined is a \<open>TypeError\<close>.\<close>

definition getEnvPlugins :: "string option \<Rightarrow> GardenContext \<Rightarrow> error + PluginInterface list" where
  "getEnvPlugins moduleType ctx =
     (case getEnvironment ctx of
        Inl e \<Rightarrow> Inl e
      | Inr env \<Rightarrow>
          (case env_config env of
             Undefined \<Rightarrow> Inl (TypeError ''Cannot read property providers of undefined'')
           | Inherited k \<Rightarrow> Inr []
           | Own c \<Rightarrow>
               (let allPlugins = getAllPlugins moduleType ctx;
                    envProviderTypes = map provider_type (values_obj (providers c))
                in Inr (filter (\<lambda>p. plugin_name p \<in> set envProviderTypes) allPlugins))))"

text \<open>The scan of both resolution loops: the first plugin with a truthy \<open>plugin[type]\<close>.\<close>

fun firstWith :: "ActionName \<Rightarrow> PluginInterface list \<Rightarrow> PluginInterface option" where
  "firstWith t [] = None"
| "firstWith t (plugin # rest) =
     (if pluginAction plugin t = None then firstWith t rest else Some plugin)"

definition module_type_suffix :: "string \<Rightarrow> string option \<Rightarrow> string" where
  "module_type_suffix pre moduleType =
     (case moduleType of None \<Rightarrow> [] | Some t \<Rightarrow> if t = [] then [] else pre @ t)"

text \<open>The result is the property \<open>this.actionHandlers[type][plugin.name]\<close>.\<close>

definition getActionHandler ::
  "ActionName \<Rightarrow> string option \<Rightarrow> GardenContext \<Rightarrow> error + ActionHandler property" where
  "getActionHandler t moduleType ctx =
     (case firstWith t (getAllPlugins moduleType ctx) of
        Some plugin \<Rightarrow> Inr (js_get (actionHandlers ctx t) (plugin_name plugin))
      | None \<Rightarrow>
          Inl (ParameterError
                 (''No handler for '' @ action_string t @ '' configured''
                    @ module_type_suffix '' for module type '' moduleType)
                 (HandlerRequest t moduleType)))"

definition getEnvActionHandler ::
  "ActionName \<Rightarrow> string option \<Rightarrow> GardenContext \<Rightarrow> error + ActionHandler property" where
  "getEnvActionHandler t moduleType ctx =
     (case getEnvPlugins moduleType ctx of
        Inl e \<Rightarrow> Inl e
      | Inr envPlugins \<Rightarrow>
          (case firstWith t envPlugins of
             Some plugin \<Rightarrow> Inr (js_get (actionHandlers ctx t) (plugin_name plugin))
           | None \<Rightarrow>
               (case getEnvironment ctx of
                  Inl e \<Rightarrow> Inl e
                | Inr env \<Rightarrow>
                    Inl (ParameterError
                           (''No handler for '' @ action_string t
                              @ '' configured for environment '' @ env_name env
                              @ module_type_suffix '' and module type '' moduleType)
                           (EnvHandlerRequest t moduleType (env_name env))))))"

section \<open>Module and service discovery\<close>

definition quoted :: "string \<Rightarrow> string" where
  "quoted s = [CHR 0x27] @ s @ [CHR 0x27]"

text \<open>A template literal renders undefined as \<open>undefined\<close>.\<close>

definition rendered :: "string option \<Rightarrow> string" where
  "rendered v = (case v of None \<Rightarrow> ''undefined'' | Some s \<Rightarrow> s)"

text \<open>
  The inner loop over \<open>config.services || {}\<close>, on the local \<open>services\<close> map; the list is
  the enumeration of the declared services.  The message of the error reads
  \<open>services[serviceName].module.name\<close>, which is a \<open>TypeError\<close> when the property is
  inherited (its \<open>module\<close> is undefined).
\<close>

fun indexServices ::
  "Module \<Rightarrow> ModuleConfig \<Rightarrow> json obj \<Rightarrow> ServiceMap \<Rightarrow> error + ServiceMap" where
  "indexServices module config' [] services' = Inr services'"
| "indexServices module config' ((serviceName, serviceConfig) # rest) services' =
     (case js_get services' serviceName of
        Own previous \<Rightarrow>
          Inl (ConfigurationError
                 (''Service names must be unique - '' @ serviceName
                    @ '' is declared multiple times (in ''
                    @ quoted (mod_name (service_module previous)) @ '' and ''
                    @ quoted (cfg_name config') @ '')'')
                 (ServiceModules serviceName (mod_name (service_module previous))
                    (cfg_name config')))
      | Inherited k \<Rightarrow>
          Inl (TypeError (''Cannot read property '' @ quoted ''name'' @ '' of undefined''))
      | Undefined \<Rightarrow>
          indexServices module config' rest
            (AList.update serviceName
               \<lparr>service_module = module, service_config = serviceConfig\<rparr> services'))"

text \<open>
  Calling the resolved parse handler.  Calling undefined is a \<open>TypeError\<close>; the other
  properties that are no parse handler do not occur in a context that the operations
  produce (lemma \<open>parse_handler_own\<close> below).
\<close>

fun callParseHandler :: "ActionHandler property \<Rightarrow> ModuleConfig \<Rightarrow> error + Module" where
  "callParseHandler (Own (ParseModuleHandler f)) config' = Inr (f config')"
| "callParseHandler _ config' = Inl (TypeError ''parseHandler is not a function'')"

text \<open>
  The body of the scan loop for one item, on the local maps \<open>modules\<close> and \<open>services\<close>.
  \<open>if (modules[config.name])\<close> is a test of truthiness on an object literal, and \<open>pathA\<close>
  is the \<open>path\<close> of what it found: undefined when the property is inherited.
\<close>

definition indexItem ::
  "Externals \<Rightarrow> GardenContext \<Rightarrow> string \<Rightarrow> ModuleMap \<times> ServiceMap \<Rightarrow> error + ModuleMap \<times> ServiceMap" where
  "indexItem ext ctx item_path ms =
     (let parsedPath = parse ext item_path
      in if base parsedPath = MODULE_CONFIG_FILENAME ext then
           (let modulePath = dir parsedPath
            in case loadModuleConfig ext modulePath of
                 Inl e \<Rightarrow> Inl e
               | Inr config' \<Rightarrow>
                   (let previous = js_get (fst ms) (cfg_name config')
                    in if truthy previous then
                         (let pathA = (case previous of Own m \<Rightarrow> Some (mod_path m) | _ \<Rightarrow> None);
                              pathB = relative ext (projectRoot ctx) item_path
                          in Inl (ConfigurationError
                                    (''Module '' @ cfg_name config'
                                       @ '' is declared multiple times (''
                                       @ quoted (rendered pathA) @ '' and ''
                                       @ quoted pathB @ '')'')
                                    (ModulePaths pathA pathB)))
                       else
                         (case getActionHandler ParseModule (Some (cfg_type config')) ctx of
                            Inl e \<Rightarrow> Inl e
                          | Inr parseHandler \<Rightarrow>
                              (case callParseHandler parseHandler config' of
                                 Inl e \<Rightarrow> Inl e
                               | Inr module \<Rightarrow>
                                   (case indexServices module config'
                                           (js_entries
                                              (case cfg_services config' of
                                                 None \<Rightarrow> [] | Some s \<Rightarrow> s))
                                           (snd ms) of
                                      Inl e \<Rightarrow> Inl e
                                    | Inr services' \<Rightarrow>
                                        Inr (AList.update (cfg_name config') module (fst ms),
                                             services'))))))
         else Inr ms)"

fun scanLoop ::
  "Externals \<Rightarrow> GardenContext \<Rightarrow> string list \<Rightarrow> ModuleMap \<times> ServiceMap \<Rightarrow> error + ModuleMap \<times> ServiceMap" where
  "scanLoop ext ctx [] ms = Inr ms"
| "scanLoop ext ctx (item_path # rest) ms =
     (case indexItem ext ctx item_path ms of
        Inl e \<Rightarrow> Inl e
      | Inr ms' \<Rightarrow> scanLoop ext ctx rest ms')"

definition scanItems :: "Externals \<Rightarrow> GardenContext \<Rightarrow> string list" where
  "scanItems ext ctx =
     scanDirectory ext (projectRoot ctx)
       (\<lambda>path. \<not> getIgnorer ext (projectRoot ctx) (relative ext (projectRoot ctx) path))"

text \<open>
  \<open>getModules\<close> and \<open>getServices\<close>, each call awaited before the next.  An exception
  leaves the fields of the context as they were, so the context is returned in both cases;
  the natural number counts the calls of \<open>scanDirectory\<close> made so far.  The answer is the
  cached index itself, or what \<open>pick\<close> makes of it when names are given.
\<close>

datatype 'm answer = Whole 'm | Part json

definition getModules ::
  "Externals \<Rightarrow> string list option \<Rightarrow> GardenContext \<Rightarrow> nat
     \<Rightarrow> (error + ModuleMap answer) \<times> GardenContext \<times> nat" where
  "getModules ext names ctx scans =
     (case modules ctx of
        Some cached \<Rightarrow>
          (Inr (case names of None \<Rightarrow> Whole cached | Some ns \<Rightarrow> Part (pickModules ext cached ns)),
           ctx, scans)
      | None \<Rightarrow>
          (case scanLoop ext ctx (scanItems ext ctx) ([], []) of
             Inl e \<Rightarrow> (Inl e, ctx, Suc scans)
           | Inr (modules', services') \<Rightarrow>
               (Inr (case names of
                       None \<Rightarrow> Whole modules'
                     | Some ns \<Rightarrow> Part (pickModules ext modules' ns)),
                ctx\<lparr>modules := Some modules', services := Some services'\<rparr>, Suc scans)))"

text \<open>\<open>this.services\<close> is read after \<open>getModules()\<close> has returned; it is undefined
  (\<open>None\<close>) if it was never assigned.\<close>

definition getServices ::
  "Externals \<Rightarrow> string list option \<Rightarrow> GardenContext \<Rightarrow> nat
     \<Rightarrow> (error + ServiceMap option answer) \<times> GardenContext \<times> nat" where
  "getServices ext names ctx scans =
     (case getModules ext None ctx scans of
        (Inl e, ctx', scans') \<Rightarrow> (Inl e, ctx', scans')
      | (Inr _, ctx', scans') \<Rightarrow>
          (Inr (case names of
                  None \<Rightarrow> Whole (services ctx')
                | Some ns \<Rightarrow> Part (pickServices ext (services ctx') ns)),
           ctx', scans'))"

section \<open>Contexts that the operations produce\<close>

text \<open>
  \<open>history ext ctx regs cur\<close>: the context \<open>ctx\<close> is the result of the constructor followed
  by successful calls of \<open>registerPlugin\<close>, \<open>setEnvironment\<close>, \<open>getModules\<close> and
  \<open>getServices\<close> in any order (a failed call leaves the fields as they were).  \<open>regs\<close> lists
  the plugins registered so far, in the order of registration, and \<open>cur\<close> is what the most
  recent successful \<open>setEnvironment\<close> returned, if there was one.
\<close>

inductive history ::
  "Externals \<Rightarrow> GardenContext \<Rightarrow> PluginInterface list \<Rightarrow> (string \<times> string) option \<Rightarrow> bool" where
  constructed: "constructor ext root = Inr ctx \<Longrightarrow> history ext ctx (builtinPlugins ext) None"
| registered: "history ext ctx regs cur \<Longrightarrow> registerPlugin ext plugin ctx = Inr ctx'
     \<Longrightarrow> history ext ctx' (regs @ [plugin]) cur"
| environment_set: "history ext ctx regs cur \<Longrightarrow> setEnvironment ext selector ctx = Inr (r, ctx')
     \<Longrightarrow> history ext ctx' regs (Some r)"
| modules_read: "history ext ctx regs cur \<Longrightarrow> getModules ext names ctx scans = (res, ctx', scans')
     \<Longrightarrow> history ext ctx' regs cur"
| services_read: "history ext ctx regs cur \<Longrightarrow> getServices ext names ctx scans = (res, ctx', scans')
     \<Longrightarrow> history ext ctx' regs cur"

text \<open>The registry is consistent: the plugin map holds the registered plugins under
  their names in the order of registration, no name twice, and the handler maps hold
  exactly the handlers of the registered plugins.\<close>

definition registry_ok :: "GardenContext \<Rightarrow> PluginInterface list \<Rightarrow> bool" where
  "registry_ok ctx regs \<longleftrightarrow>
     plugins ctx = map (\<lambda>p. (plugin_name p, p)) regs \<and>
     distinct (map plugin_name regs) \<and>
     (\<forall>a n. map_of (actionHandlers ctx a) n =
        (case map_of (plugins ctx) n of None \<Rightarrow> None | Some p \<Rightarrow> pluginAction p a))"

section \<open>The statements of the specification, as functions\<close>

text \<open>
  Resolution in the words of the specification: of the plugins in registration order,
  restricted to those whose supported module types contain \<open>moduleType\<close> when one is
  supplied, the handler of the first that implements the capability.
\<close>

definition spec_eligible :: "string option \<Rightarrow> PluginInterface list \<Rightarrow> PluginInterface list" where
  "spec_eligible moduleType regs =
     (case moduleType of
        None \<Rightarrow> regs
      | Some t \<Rightarrow> filter (\<lambda>p. t \<in> set (supportedModuleTypes p)) regs)"

definition spec_resolve :: "ActionName \<Rightarrow> PluginInterface list \<Rightarrow> ActionHandler option" where
  "spec_resolve t eligible =
     (case find (\<lambda>p. pluginAction p t \<noteq> None) eligible of
        None \<Rightarrow> None
      | Some p \<Rightarrow> pluginAction p t)"

text \<open>
  The order in which a plugin map that was filled in the order \<open>regs\<close> is enumerated:
  the plugins whose name is an array index first, by ascending index, then the others in
  the order of registration.
\<close>

definition enumeration_order :: "PluginInterface list \<Rightarrow> PluginInterface list" where
  "enumeration_order regs =
     sort_key (\<lambda>p. index_value (plugin_name p)) (filter (\<lambda>p. is_array_index (plugin_name p)) regs)
       @ filter (\<lambda>p. \<not> is_array_index (plugin_name p)) regs"

definition is_PluginError :: "error \<Rightarrow> bool" where
  "is_PluginError e = (case e of PluginError _ _ \<Rightarrow> True | _ \<Rightarrow> False)"

text \<open>
  A service entry is \<^emph>\<open>declared\<close> when one of the items is a module declaration that
  names the service and the module index holds the owning module of the entry under
  the name of that declaration.
\<close>

definition declared_in :: "Externals \<Rightarrow> string list \<Rightarrow> ModuleMap \<Rightarrow> string \<times> Service \<Rightarrow> bool" where
  "declared_in ext items ms s \<longleftrightarrow>
     (\<exists>item\<in>set items. \<exists>c.
        base (parse ext item) = MODULE_CONFIG_FILENAME ext
        \<and> loadModuleConfig ext (dir (parse ext item)) = Inr c
        \<and> fst s \<in> fst ` set (case cfg_services c of None \<Rightarrow> [] | Some svcs \<Rightarrow> svcs)
        \<and> map_of ms (cfg_name c) = Some (service_module (snd s)))"

text \<open>The two indexes are unset together, or set together with every service entry
  declared.\<close>

definition indexes_ok :: "Externals \<Rightarrow> GardenContext \<Rightarrow> bool" where
  "indexes_ok ext ctx \<longleftrightarrow>
     (case modules ctx of
        None \<Rightarrow> services ctx = None
      | Some ms \<Rightarrow>
          (case services ctx of
             None \<Rightarrow> False
           | Some ss \<Rightarrow> list_all (declared_in ext (scanItems ext ctx) ms) ss))"

section \<open>A small project, for evaluation\<close>

definition example_identifier :: "string \<Rightarrow> bool" where
  "example_identifier s \<longleftrightarrow>
     s \<noteq> [] \<and> list_all (\<lambda>c. c \<in> set ''abcdefghijklmnopqrstuvwxyz0123456789-'') s"

definition example_parse :: "string \<Rightarrow> ParsedPath" where
  "example_parse p =
     (let parts = split (CHR ''/'') p
      in \<lparr>dir = join ''/'' (butlast parts), base = last parts\<rparr>)"

definition example_relative :: "string \<Rightarrow> string \<Rightarrow> string" where
  "example_relative from to =
     (if take (Suc (length from)) to = from @ ''/'' then drop (Suc (length from)) to else to)"

text \<open>The handler of the example plugin \<open>n\<close> keeps the directory that the loader recorded
  as the path of the module, and marks the module with \<open>n\<close>.\<close>

definition example_handler :: "string \<Rightarrow> ModuleConfig \<Rightarrow> Module" where
  "example_handler n c =
     \<lparr>mod_name = cfg_name c, mod_type = n, mod_path = cfg_path c, mod_config = c\<rparr>"

definition example_plugin :: "string \<Rightarrow> PluginInterface" where
  "example_plugin n =
     \<lparr>plugin_name = n, supportedModuleTypes = [n], parseModule = Some (example_handler n),
      getModuleBuildStatus = None, buildModule = None\<rparr>"

definition example_declaration :: "string \<Rightarrow> string \<Rightarrow> string \<Rightarrow> string list \<Rightarrow> string \<times> ModuleConfig" where
  "example_declaration d n t svcs =
     (d, \<lparr>cfg_name = n, cfg_type = t, cfg_path = d,
          cfg_services = (if svcs = [] then None else Some (map (\<lambda>s. (s, JStr s)) svcs))\<rparr>)"

definition example_pick :: "string list \<Rightarrow> string list \<Rightarrow> json" where
  "example_pick keys names = JArr (map JStr (filter (\<lambda>k. k \<in> set keys) names))"

definition example_ext :: "ProjectConfig \<Rightarrow> (string \<times> ModuleConfig) list \<Rightarrow> Externals" where
  "example_ext project decls =
     \<lparr>DEFAULT_NAMESPACE = ''default'',
      MODULE_CONFIG_FILENAME = ''garden.yml'',
      JoiIdentifier = example_identifier,
      GenericModuleHandler = example_plugin ''generic'',
      ContainerModuleHandler = example_plugin ''container'',
      GenericFunctionModuleHandler = example_plugin ''function'',
      NpmPackageModuleHandler = example_plugin ''npm-package'',
      loadProjectConfig = (\<lambda>root. Inr project),
      loadModuleConfig = (\<lambda>d. case map_of decls d of
                                  Some c \<Rightarrow> Inr c
                                | None \<Rightarrow> Inl (ConfigurationError ''cannot load'' NoDetail)),
      getIgnorer = (\<lambda>root rel. False),
      scanDirectory = (\<lambda>root keep.
         filter keep (concat (map (\<lambda>d. [fst d @ ''/README.md'', fst d @ ''/garden.yml'']) decls))),
      parse = example_parse,
      relative = example_relative,
      pickModules = (\<lambda>object. example_pick (map fst object)),
      pickServices = (\<lambda>object.
         example_pick (map fst (case object of None \<Rightarrow> [] | Some s \<Rightarrow> s)))\<rparr>"

definition example_project :: ProjectConfig where
  "example_project =
     \<lparr>environments =
        [(''prod'', \<lparr>providers = [(''build'', \<lparr>provider_type = ''container''\<rparr>)]\<rparr>),
         (''dev'', \<lparr>providers = [(''build'', \<lparr>provider_type = ''generic''\<rparr>)]\<rparr>),
         (''mixed'', \<lparr>providers = [(''build'', \<lparr>provider_type = ''generic''\<rparr>),
                                   (''deploy'', \<lparr>provider_type = ''1''\<rparr>)]\<rparr>)]\<rparr>"

definition good_ext :: Externals where
  "good_ext = example_ext example_project
     [example_declaration ''/project/a'' ''web'' ''container'' [''api''],
      example_declaration ''/project/b'' ''lib'' ''generic'' []]"

definition twice_ext :: Externals where
  "twice_ext = example_ext example_project
     [example_declaration ''/project/a'' ''web'' ''container'' [''api''],
      example_declaration ''/project/b'' ''web'' ''generic'' []]"

definition clash_ext :: Externals where
  "clash_ext = example_ext example_project
     [example_declaration ''/project/a'' ''web'' ''container'' [''api''],
      example_declaration ''/project/b'' ''lib'' ''generic'' [''api'']]"

text \<open>The context \<open>new GardenContext("/project")\<close> of each.\<close>

definition new_context :: "Externals \<Rightarrow> GardenContext" where
  "new_context ext = projr (constructor ext ''/project'')"

text \<open>The example context after \<open>setEnvironment("prod")\<close>.\<close>

definition prod_context :: GardenContext where
  "prod_context =
     (new_context good_ext)\<lparr>environment := Some ''prod'', namespace := Some ''default''\<rparr>"

text \<open>The example context after registering a fifth plugin, \<open>kubernetes\<close>.\<close>

definition kube_context :: GardenContext where
  "kube_context = projr (registerPlugin good_ext (example_plugin ''kubernetes'') (new_context good_ext))"



text \<open>The example context after a successful \<open>getModules()\<close>.\<close>

definition discovered_context :: GardenContext where
  "discovered_context = fst (snd (getModules good_ext None (new_context good_ext) 0))"

text \<open>The modules of the example project, as the built-in handlers produce them.\<close>

definition web_module :: Module where
  "web_module = example_handler ''container''
     (snd (example_declaration ''/project/a'' ''web'' ''container'' [''api'']))"

definition lib_module :: Module where
  "lib_module = example_handler ''generic''
     (snd (example_declaration ''/project/b'' ''lib'' ''generic'' []))"

section \<open>Registration and what it preserves\<close>

lemma js_get_Undefined:
  "js_get obj k = Undefined \<longleftrightarrow> map_of obj k = None \<and> k \<notin> set Object_prototype"
  by (simp add: js_get_def split: option.splits)

lemma js_get_Own: "js_get obj k = Own v \<longleftrightarrow> map_of obj k = Some v"
  by (simp add: js_get_def split: option.splits)

lemma js_get_Inherited:
  "js_get obj k = Inherited n \<longleftrightarrow> map_of obj k = None \<and> k \<in> set Object_prototype \<and> n = k"
  by (auto simp: js_get_def split: option.splits)

lemma truthy_js_get:
  "truthy (js_get obj k) \<longleftrightarrow> map_of obj k \<noteq> None \<or> k \<in> set Object_prototype"
  by (auto simp: js_get_def split: option.splits)

lemma set_js_entries: "set (js_entries obj) = set obj"
  by (auto simp: js_entries_def)

lemma insort_key_map:
  "insort_key f (g x) (map g ys) = map g (insort_key (\<lambda>y. f (g y)) x ys)"
  by (induction ys) simp_all

lemma sort_key_map: "sort_key f (map g xs) = map g (sort_key (\<lambda>y. f (g y)) xs)"
  by (induction xs) (simp_all add: insort_key_map)

lemma values_of_named:
  "values_obj (map (\<lambda>p. (plugin_name p, p)) regs) = enumeration_order regs"
  by (simp add: values_obj_def js_entries_def enumeration_order_def filter_map o_def
      sort_key_map)

lemma enumeration_order_plain:
  "\<forall>p\<in>set regs. \<not> is_array_index (plugin_name p) \<Longrightarrow> enumeration_order regs = regs"
  by (simp add: enumeration_order_def filter_False)

lemma set_enumeration_order: "set (enumeration_order regs) = set regs"
  by (auto simp: enumeration_order_def)

lemma storeHandler_fields:
  "plugins (storeHandler p n ctx a) = plugins ctx"
  "config (storeHandler p n ctx a) = config ctx"
  "environment (storeHandler p n ctx a) = environment ctx"
  "namespace (storeHandler p n ctx a) = namespace ctx"
  "modules (storeHandler p n ctx a) = modules ctx"
  "services (storeHandler p n ctx a) = services ctx"
  "projectRoot (storeHandler p n ctx a) = projectRoot ctx"
  by (simp_all add: storeHandler_def split: option.splits)

lemma storeHandler_handlers:
  "actionHandlers (storeHandler p n ctx a) b =
     (if b = a then (case pluginAction p a of None \<Rightarrow> actionHandlers ctx a
                     | Some h \<Rightarrow> AList.update n h (actionHandlers ctx a))
      else actionHandlers ctx b)"
  by (simp add: storeHandler_def split: option.splits)

lemma storeAll_fields:
  "plugins (foldl (storeHandler p n) ctx pluginActionNames) = plugins ctx"
  "config (foldl (storeHandler p n) ctx pluginActionNames) = config ctx"
  "environment (foldl (storeHandler p n) ctx pluginActionNames) = environment ctx"
  "namespace (foldl (storeHandler p n) ctx pluginActionNames) = namespace ctx"
  "modules (foldl (storeHandler p n) ctx pluginActionNames) = modules ctx"
  "services (foldl (storeHandler p n) ctx pluginActionNames) = services ctx"
  "projectRoot (foldl (storeHandler p n) ctx pluginActionNames) = projectRoot ctx"
  by (simp_all add: pluginActionNames_def storeHandler_fields)

lemma storeAll_handlers:
  "actionHandlers (foldl (storeHandler p n) ctx pluginActionNames) a =
     (case pluginAction p a of None \<Rightarrow> actionHandlers ctx a
      | Some h \<Rightarrow> AList.update n h (actionHandlers ctx a))"
  by (cases a)
     (simp_all add: pluginActionNames_def storeHandler_handlers del: pluginAction.simps
        split: option.splits)

lemma registerPlugin_Inr:
  assumes "registerPlugin ext p ctx = Inr ctx'"
  shows "JoiIdentifier ext (plugin_name p)"
    and "map_of (plugins ctx) (plugin_name p) = None"
    and "plugins ctx' = AList.update (plugin_name p) p (plugins ctx)"
    and "actionHandlers ctx' a =
           (case pluginAction p a of None \<Rightarrow> actionHandlers ctx a
            | Some h \<Rightarrow> AList.update (plugin_name p) h (actionHandlers ctx a))"
    and "config ctx' = config ctx" and "environment ctx' = environment ctx"
    and "namespace ctx' = namespace ctx" and "modules ctx' = modules ctx"
    and "services ctx' = services ctx" and "projectRoot ctx' = projectRoot ctx"
    and "plugin_name p \<notin> set Object_prototype"
  using assms
  by (auto simp: registerPlugin_def Joi_attempt_def Let_def storeAll_fields storeAll_handlers
      truthy_js_get split: if_splits option.splits)

lemma update_fresh: "map_of al k = None \<Longrightarrow> AList.update k v al = al @ [(k, v)]"
  by (induction al) (auto split: if_splits)

lemma map_of_named:
  "distinct (map plugin_name regs) \<Longrightarrow>
     map_of (map (\<lambda>p. (plugin_name p, p)) regs) n = Some p \<longleftrightarrow> p \<in> set regs \<and> plugin_name p = n"
  by (induction regs) (auto simp: rev_image_eqI)

lemma map_of_named_None:
  "map_of (map (\<lambda>p. (plugin_name p, p)) regs) n = None \<longleftrightarrow> n \<notin> plugin_name ` set regs"
  by (induction regs) auto

lemma registerPlugin_registry_ok:
  assumes "registerPlugin ext p ctx = Inr ctx'" and "registry_ok ctx regs"
  shows "registry_ok ctx' (regs @ [p])"
proof -
  note r = registerPlugin_Inr[OF assms(1)]
  from assms(2) have pl: "plugins ctx = map (\<lambda>p. (plugin_name p, p)) regs"
    and d: "distinct (map plugin_name regs)" by (simp_all add: registry_ok_def)
  have fresh: "plugin_name p \<notin> plugin_name ` set regs"
    using r(2) by (simp add: pl map_of_named_None)
  have pl': "plugins ctx' = map (\<lambda>p. (plugin_name p, p)) (regs @ [p])"
    using r(2,3) by (simp add: update_fresh pl)
  have d': "distinct (map plugin_name (regs @ [p]))"
    using d fresh by simp
  have h: "map_of (actionHandlers ctx' a) n =
        (case map_of (plugins ctx') n of None \<Rightarrow> None | Some q \<Rightarrow> pluginAction q a)" for a n
  proof -
    have old: "map_of (actionHandlers ctx a) n =
        (case map_of (plugins ctx) n of None \<Rightarrow> None | Some q \<Rightarrow> pluginAction q a)"
      using assms(2) by (simp add: registry_ok_def)
    show ?thesis
      using old r(2)
      by (cases "n = plugin_name p")
         (simp_all add: r(3) r(4) AList.update_conv' split: option.splits)
  qed
  show ?thesis unfolding registry_ok_def using pl' d' h by blast
qed

lemma registerPlugins_Inr:
  assumes "registerPlugins ext ps ctx = Inr ctx'" and "registry_ok ctx regs"
  shows "registry_ok ctx' (regs @ ps)
    \<and> config ctx' = config ctx \<and> environment ctx' = environment ctx
    \<and> namespace ctx' = namespace ctx \<and> modules ctx' = modules ctx
    \<and> services ctx' = services ctx \<and> projectRoot ctx' = projectRoot ctx"
  using assms
proof (induction ps arbitrary: ctx regs)
  case Nil
  then show ?case by simp
next
  case (Cons p ps)
  from Cons.prems(1) obtain c where c: "registerPlugin ext p ctx = Inr c"
    and rest: "registerPlugins ext ps c = Inr ctx'"
    by (auto split: sum.splits)
  have ok: "registry_ok c (regs @ [p])" using c Cons.prems(2) by (rule registerPlugin_registry_ok)
  show ?case
    using Cons.IH[OF rest ok] registerPlugin_Inr(5-10)[OF c]
    by simp
qed

lemma constructor_Inr:
  assumes "constructor ext root = Inr ctx"
  shows "registry_ok ctx (builtinPlugins ext)"
    and "environment ctx = None" and "namespace ctx = None"
    and "modules ctx = None" and "services ctx = None" and "projectRoot ctx = root"
    and "loadProjectConfig ext root = Inr (config ctx)"
proof -
  let ?c0 = "\<lparr>projectRoot = root, config = \<lparr>environments = []\<rparr>,
              environment = None, namespace = None,
              plugins = [], actionHandlers = (\<lambda>_. []),
              modules = None, services = None\<rparr>"
  from assms obtain c cfg where c: "registerPlugins ext (builtinPlugins ext) ?c0 = Inr c"
    and cfg: "loadProjectConfig ext root = Inr cfg" and ctx: "ctx = c\<lparr>config := cfg\<rparr>"
    by (auto simp: constructor_def split: sum.splits)
  have ok0: "registry_ok ?c0 []" by (simp add: registry_ok_def)
  note r = registerPlugins_Inr[OF c ok0]
  show "registry_ok ctx (builtinPlugins ext)" using r by (simp add: ctx registry_ok_def)
  show "environment ctx = None" "namespace ctx = None" "modules ctx = None"
    "services ctx = None" "projectRoot ctx = root" using r by (simp_all add: ctx)
  show "loadProjectConfig ext root = Inr (config ctx)" using cfg by (simp add: ctx)
qed

lemma setEnvironment_Inr:
  assumes "setEnvironment ext selector ctx = Inr ((n, ns), ctx')"
  shows "ctx' = ctx\<lparr>environment := Some n, namespace := Some ns\<rparr>"
    and "truthy (js_get (environments (config ctx)) n)"
  using assms by (auto simp: setEnvironment_def Let_def split: if_splits)

lemma getModules_fields:
  assumes "getModules ext names ctx scans = (res, ctx', scans')"
  shows "plugins ctx' = plugins ctx" and "actionHandlers ctx' = actionHandlers ctx"
    and "config ctx' = config ctx" and "environment ctx' = environment ctx"
    and "namespace ctx' = namespace ctx" and "projectRoot ctx' = projectRoot ctx"
  using assms by (auto simp: getModules_def split: option.splits sum.splits prod.splits)

lemma getServices_context:
  assumes "getServices ext names ctx scans = (res, ctx', scans')"
  shows "\<exists>r. getModules ext None ctx scans = (r, ctx', scans')"
  using assms
  by (cases "getModules ext None ctx scans")
     (auto simp: getServices_def split: sum.splits)

lemma getServices_fields:
  assumes "getServices ext names ctx scans = (res, ctx', scans')"
  shows "plugins ctx' = plugins ctx" and "actionHandlers ctx' = actionHandlers ctx"
    and "config ctx' = config ctx" and "environment ctx' = environment ctx"
    and "namespace ctx' = namespace ctx" and "projectRoot ctx' = projectRoot ctx"
proof -
  from getServices_context[OF assms]
  obtain r where g: "getModules ext None ctx scans = (r, ctx', scans')" by blast
  show "plugins ctx' = plugins ctx" and "actionHandlers ctx' = actionHandlers ctx"
    and "config ctx' = config ctx" and "environment ctx' = environment ctx"
    and "namespace ctx' = namespace ctx" and "projectRoot ctx' = projectRoot ctx"
    using getModules_fields[OF g] by simp_all
qed

lemma registry_ok_cong:
  "plugins c' = plugins c \<Longrightarrow> actionHandlers c' = actionHandlers c \<Longrightarrow> registry_ok c regs
     \<Longrightarrow> registry_ok c' regs"
  by (simp add: registry_ok_def)

lemma history_registry:
  "history ext ctx regs cur \<Longrightarrow> registry_ok ctx regs"
proof (induction rule: history.induct)
  case (constructed ext root ctx)
  then show ?case by (simp add: constructor_Inr)
next
  case (registered ext ctx regs cur plugin ctx')
  then show ?case by (simp add: registerPlugin_registry_ok)
next
  case (environment_set ext ctx regs cur selector r ctx')
  obtain n ns where r: "r = (n, ns)" by (cases r)
  from setEnvironment_Inr(1)[OF environment_set.hyps(2)[unfolded r]] environment_set.IH
  show ?case by (simp add: registry_ok_def)
next
  case (modules_read ext ctx regs cur names scans res ctx' scans')
  from getModules_fields(1,2)[OF modules_read.hyps(2)] modules_read.IH
  show ?case by (simp add: registry_ok_def)
next
  case (services_read ext ctx regs cur names scans res ctx' scans')
  from getServices_fields(1,2)[OF services_read.hyps(2)] services_read.IH
  show ?case by (simp add: registry_ok_def)
qed

lemma registry_values:
  "registry_ok ctx regs \<Longrightarrow> values_obj (plugins ctx) = enumeration_order regs"
  by (simp add: registry_ok_def values_of_named)

lemma history_builtins_first:
  "history ext ctx regs cur \<Longrightarrow> \<exists>later. regs = builtinPlugins ext @ later"
  by (induction rule: history.induct) auto

lemma history_environment:
  "history ext ctx regs cur \<Longrightarrow>
     (case cur of
        None \<Rightarrow> environment ctx = None
      | Some r \<Rightarrow> environment ctx = Some (fst r) \<and> namespace ctx = Some (snd r)
          \<and> truthy (js_get (environments (config ctx)) (fst r)))"
proof (induction rule: history.induct)
  case (constructed ext root ctx)
  then show ?case by (simp add: constructor_Inr)
next
  case (registered ext ctx regs cur plugin ctx')
  then show ?case
    using registerPlugin_Inr(5-7)[OF registered.hyps(2)] by (auto split: option.splits)
next
  case (environment_set ext ctx regs cur selector r ctx')
  obtain n ns where r: "r = (n, ns)" by (cases r)
  from setEnvironment_Inr[OF environment_set.hyps(2)[unfolded r]]
  show ?case by (simp add: r)
next
  case (modules_read ext ctx regs cur names scans res ctx' scans')
  then show ?case
    using getModules_fields(3-5)[OF modules_read.hyps(2)] by (auto split: option.splits)
next
  case (services_read ext ctx regs cur names scans res ctx' scans')
  then show ?case
    using getServices_fields(3-5)[OF services_read.hyps(2)] by (auto split: option.splits)
qed

section \<open>Resolution\<close>

lemma firstWith_find: "firstWith t ps = find (\<lambda>p. pluginAction p t \<noteq> None) ps"
  by (induction ps) simp_all

lemma firstWith_None: "firstWith t ps = None \<longleftrightarrow> (\<forall>p\<in>set ps. pluginAction p t = None)"
  by (induction ps) simp_all

lemma firstWith_Some: "firstWith t ps = Some p \<Longrightarrow> p \<in> set ps \<and> pluginAction p t \<noteq> None"
  by (induction ps) (auto split: if_splits)

lemma getAllPlugins_subset: "set (getAllPlugins moduleType ctx) \<subseteq> set (values_obj (plugins ctx))"
  by (auto simp: getAllPlugins_def Let_def split: option.splits if_splits)

lemma getAllPlugins_scanned:
  assumes "registry_ok ctx regs"
  shows "getAllPlugins moduleType ctx =
     (if moduleType = Some [] then enumeration_order regs
      else spec_eligible moduleType (enumeration_order regs))"
  by (auto simp: getAllPlugins_def spec_eligible_def Let_def registry_values[OF assms]
      split: option.splits)

lemma getAllPlugins_registered:
  assumes "registry_ok ctx regs"
  shows "set (getAllPlugins moduleType ctx) \<subseteq> set regs"
  using getAllPlugins_subset[of moduleType ctx]
  by (simp add: registry_values[OF assms] set_enumeration_order)

lemma stored_handler:
  assumes "registry_ok ctx regs" and "p \<in> set regs"
  shows "map_of (actionHandlers ctx t) (plugin_name p) = pluginAction p t"
proof -
  from assms have "map_of (plugins ctx) (plugin_name p) = Some p"
    by (simp add: registry_ok_def map_of_named)
  with assms(1) show ?thesis by (simp add: registry_ok_def)
qed

lemma stored_handler_iff:
  assumes "registry_ok ctx regs"
  shows "map_of (actionHandlers ctx a) n = Some h \<longleftrightarrow>
     (\<exists>p\<in>set regs. plugin_name p = n \<and> pluginAction p a = Some h)"
proof
  assume "map_of (actionHandlers ctx a) n = Some h"
  with assms obtain p where p: "map_of (plugins ctx) n = Some p" "pluginAction p a = Some h"
    by (auto simp: registry_ok_def split: option.splits)
  from p(1) assms have "p \<in> set regs \<and> plugin_name p = n"
    by (simp add: registry_ok_def map_of_named)
  with p(2) show "\<exists>p\<in>set regs. plugin_name p = n \<and> pluginAction p a = Some h" by blast
next
  assume "\<exists>p\<in>set regs. plugin_name p = n \<and> pluginAction p a = Some h"
  then show "map_of (actionHandlers ctx a) n = Some h"
    using stored_handler[OF assms] by auto
qed

lemma scan_result:
  assumes "registry_ok ctx regs" and "set ps \<subseteq> set regs"
  shows "(case firstWith t ps of
            Some plugin \<Rightarrow> Inr (js_get (actionHandlers ctx t) (plugin_name plugin))
          | None \<Rightarrow> Inl e) =
         (case spec_resolve t ps of Some h \<Rightarrow> Inr (Own h) | None \<Rightarrow> Inl e)"
proof (cases "firstWith t ps")
  case None
  then show ?thesis by (simp add: spec_resolve_def firstWith_find)
next
  case (Some p)
  from firstWith_Some[OF Some] assms(2)
  have "p \<in> set regs" and "pluginAction p t \<noteq> None" by auto
  with stored_handler[OF assms(1), of p t] Some show ?thesis
    by (auto simp: spec_resolve_def firstWith_find js_get_def)
qed

lemma getActionHandler_resolve:
  assumes "registry_ok ctx regs"
  shows "getActionHandler t moduleType ctx =
     (case spec_resolve t (getAllPlugins moduleType ctx) of
        Some h \<Rightarrow> Inr (Own h)
      | None \<Rightarrow>
          Inl (ParameterError
                 (''No handler for '' @ action_string t @ '' configured''
                    @ module_type_suffix '' for module type '' moduleType)
                 (HandlerRequest t moduleType)))"
  unfolding getActionHandler_def
  by (rule scan_result[OF assms getAllPlugins_registered[OF assms]])

text \<open>In a context that the operations produce, the parse handler that \<open>getModules\<close>
  resolves is the own property of a handler map and a parse handler.\<close>

lemma parse_handler_own:
  assumes "history ext ctx regs cur"
    and "getActionHandler ParseModule moduleType ctx = Inr parseHandler"
  shows "\<exists>f. parseHandler = Own (ParseModuleHandler f)"
proof -
  have ok: "registry_ok ctx regs" using assms(1) by (rule history_registry)
  from assms(2) obtain h where h: "spec_resolve ParseModule (getAllPlugins moduleType ctx) = Some h"
    and p: "parseHandler = Own h"
    unfolding getActionHandler_resolve[OF ok] by (auto split: option.splits)
  from h obtain q where "pluginAction q ParseModule = Some h"
    by (auto simp: spec_resolve_def split: option.splits)
  then show ?thesis using p by auto
qed

section \<open>The example project\<close>

lemma example_constructor:
  "\<exists>ctx. constructor (example_ext project decls) ''/project'' = Inr ctx"
  by (simp add: constructor_def example_ext_def builtinPlugins_def registerPlugin_def
      Joi_attempt_def example_plugin_def example_identifier_def storeAll_fields Let_def
      js_get_def Object_prototype_def)

lemma example_new_context:
  "constructor (example_ext project decls) ''/project'' = Inr (new_context (example_ext project decls))"
  using example_constructor[of project decls] by (auto simp: new_context_def)

lemma example_history:
  "history (example_ext project decls) (new_context (example_ext project decls))
     (builtinPlugins (example_ext project decls)) None"
  by (rule history.constructed[OF example_new_context])

lemma example_builtins:
  "builtinPlugins (example_ext project decls) =
     [example_plugin ''generic'', example_plugin ''container'',
      example_plugin ''function'', example_plugin ''npm-package'']"
  by (simp add: builtinPlugins_def example_ext_def)

lemma example_config:
  "config (new_context (example_ext project decls)) = project"
  using constructor_Inr(7)[OF example_new_context, of project decls]
  by (simp add: example_ext_def)

lemma example_order:
  "enumeration_order
     [example_plugin ''generic'', example_plugin ''container'',
      example_plugin ''function'', example_plugin ''npm-package''] =
     [example_plugin ''generic'', example_plugin ''container'',
      example_plugin ''function'', example_plugin ''npm-package'']"
  "enumeration_order
     [example_plugin ''generic'', example_plugin ''container'',
      example_plugin ''function'', example_plugin ''npm-package'', example_plugin ''1''] =
     [example_plugin ''1'', example_plugin ''generic'', example_plugin ''container'',
      example_plugin ''function'', example_plugin ''npm-package'']"
  "enumeration_order
     [example_plugin ''generic'', example_plugin ''container'',
      example_plugin ''function'', example_plugin ''npm-package'',
      example_plugin ''kubernetes''] =
     [example_plugin ''generic'', example_plugin ''container'',
      example_plugin ''function'', example_plugin ''npm-package'',
      example_plugin ''kubernetes'']"
  by (simp_all add: enumeration_order_def example_plugin_def is_array_index_def
      index_value_def digit_value_def)

lemma registerPlugin_fresh:
  assumes "JoiIdentifier ext (plugin_name plugin)"
    and "map_of (plugins ctx) (plugin_name plugin) = None"
    and "plugin_name plugin \<notin> set Object_prototype"
  shows "\<exists>ctx'. registerPlugin ext plugin ctx = Inr ctx'"
  using assms by (simp add: registerPlugin_def Joi_attempt_def Let_def truthy_js_get)

lemma example_register:
  assumes "example_identifier n" and "n \<notin> set Object_prototype"
    and "n \<notin> set [''generic'', ''container'', ''function'', ''npm-package'']"
  shows "\<exists>ctx'. registerPlugin good_ext (example_plugin n) (new_context good_ext) = Inr ctx'"
proof -
  have h: "history good_ext (new_context good_ext) (builtinPlugins good_ext) None"
    unfolding good_ext_def by (rule example_history)
  have b: "builtinPlugins good_ext =
     [example_plugin ''generic'', example_plugin ''container'',
      example_plugin ''function'', example_plugin ''npm-package'']"
    unfolding good_ext_def by (rule example_builtins)
  have j: "JoiIdentifier good_ext = example_identifier"
    by (simp add: good_ext_def example_ext_def)
  from history_registry[OF h]
  have pl: "plugins (new_context good_ext) = map (\<lambda>p. (plugin_name p, p)) (builtinPlugins good_ext)"
    by (simp add: registry_ok_def)
  have none: "map_of (plugins (new_context good_ext)) (plugin_name (example_plugin n)) = None"
    using assms(3) by (simp add: pl map_of_named_None b) (simp add: example_plugin_def)
  show ?thesis
    using assms(1,2) by (intro registerPlugin_fresh none) (simp_all add: j example_plugin_def)
qed


lemma kube_history:
  shows "registerPlugin good_ext (example_plugin ''kubernetes'') (new_context good_ext) =
           Inr kube_context"
    and "history good_ext kube_context
           (builtinPlugins good_ext @ [example_plugin ''kubernetes'']) None"
proof -
  have h: "history good_ext (new_context good_ext) (builtinPlugins good_ext) None"
    unfolding good_ext_def by (rule example_history)
  have "\<exists>ctx'. registerPlugin good_ext (example_plugin ''kubernetes'') (new_context good_ext) =
      Inr ctx'"
    by (rule example_register) (simp_all add: example_identifier_def Object_prototype_def)
  then show r: "registerPlugin good_ext (example_plugin ''kubernetes'') (new_context good_ext) =
      Inr kube_context"
    by (auto simp: kube_context_def)
  show "history good_ext kube_context
           (builtinPlugins good_ext @ [example_plugin ''kubernetes'']) None"
    by (rule history.registered[OF h r])
qed

section \<open>Global resolution\<close>

text \<open>
  What the code does in every context the operations produce: \<open>getActionHandler\<close>
  returns the handler of the first plugin that implements the capability, in the order in
  which the plugin map is enumerated: the plugins whose identifier is an array index
  first, by ascending index, then the others in registration order.  The scan runs over
  all registered plugins when \<open>moduleType\<close> is absent or the empty string, and otherwise
  over those whose supported module types contain \<open>moduleType\<close>; the call fails with a
  \<open>ParameterError\<close> when no scanned plugin implements the capability.  The built-in
  plugins are the first four of the registration order, and where no identifier is an
  array index the order of the scan is the registration order.
\<close>

lemma getActionHandler_first_enumerated:
  assumes "history ext ctx regs cur"
  shows "getActionHandler t moduleType ctx =
           (case spec_resolve t
                   (if moduleType = Some [] then enumeration_order regs
                    else spec_eligible moduleType (enumeration_order regs)) of
              Some h \<Rightarrow> Inr (Own h)
            | None \<Rightarrow>
                Inl (ParameterError
                       (''No handler for '' @ action_string t @ '' configured''
                          @ module_type_suffix '' for module type '' moduleType)
                       (HandlerRequest t moduleType)))
         \<and> (\<exists>later. regs = builtinPlugins ext @ later)
         \<and> ((\<forall>p\<in>set regs. \<not> is_array_index (plugin_name p)) \<longrightarrow>
               enumeration_order regs = regs)"
proof (intro conjI impI)
  have ok: "registry_ok ctx regs" using assms by (rule history_registry)
  show "getActionHandler t moduleType ctx =
           (case spec_resolve t
                   (if moduleType = Some [] then enumeration_order regs
                    else spec_eligible moduleType (enumeration_order regs)) of
              Some h \<Rightarrow> Inr (Own h)
            | None \<Rightarrow>
                Inl (ParameterError
                       (''No handler for '' @ action_string t @ '' configured''
                          @ module_type_suffix '' for module type '' moduleType)
                       (HandlerRequest t moduleType)))"
    using getActionHandler_resolve[OF ok, of t moduleType]
    by (simp only: getAllPlugins_scanned[OF ok])
  show "\<exists>later. regs = builtinPlugins ext @ later"
    using assms by (rule history_builtins_first)
  show "enumeration_order regs = regs" if "\<forall>p\<in>set regs. \<not> is_array_index (plugin_name p)"
    using that by (rule enumeration_order_plain)
qed

lemma getActionHandler_first_enumerated_example:
  "history good_ext (new_context good_ext) (builtinPlugins good_ext) None
   \<and> getActionHandler ParseModule (Some ''container'') (new_context good_ext) =
       Inr (Own (ParseModuleHandler (example_handler ''container'')))
   \<and> getActionHandler ParseModule None (new_context good_ext) =
       Inr (Own (ParseModuleHandler (example_handler ''generic'')))
   \<and> getActionHandler BuildModule (Some []) (new_context good_ext) =
       Inl (ParameterError ''No handler for buildModule configured''
              (HandlerRequest BuildModule (Some [])))
   \<and> enumeration_order (builtinPlugins good_ext) = builtinPlugins good_ext"
proof -
  have h: "history good_ext (new_context good_ext) (builtinPlugins good_ext) None"
    unfolding good_ext_def by (rule example_history)
  have b: "builtinPlugins good_ext =
     [example_plugin ''generic'', example_plugin ''container'',
      example_plugin ''function'', example_plugin ''npm-package'']"
    unfolding good_ext_def by (rule example_builtins)
  have plain: "\<forall>p\<in>set (builtinPlugins good_ext). \<not> is_array_index (plugin_name p)"
    by (simp add: b example_plugin_def is_array_index_def)
  note t = getActionHandler_first_enumerated[OF h]
  have 1: "getActionHandler ParseModule (Some ''container'') (new_context good_ext) =
       Inr (Own (ParseModuleHandler (example_handler ''container'')))"
    using t[of ParseModule "Some ''container''", THEN conjunct1] unfolding b example_order
    by (simp add: spec_resolve_def spec_eligible_def example_plugin_def)
  have 2: "getActionHandler ParseModule None (new_context good_ext) =
       Inr (Own (ParseModuleHandler (example_handler ''generic'')))"
    using t[of ParseModule None, THEN conjunct1] unfolding b example_order
    by (simp add: spec_resolve_def spec_eligible_def example_plugin_def)
  have 3: "getActionHandler BuildModule (Some []) (new_context good_ext) =
       Inl (ParameterError ''No handler for buildModule configured''
              (HandlerRequest BuildModule (Some [])))"
    using t[of BuildModule "Some []", THEN conjunct1] unfolding b example_order
    by (simp add: spec_resolve_def example_plugin_def module_type_suffix_def)
  have 4: "enumeration_order (builtinPlugins good_ext) = builtinPlugins good_ext"
    using t[of ParseModule None, THEN conjunct2, THEN conjunct2, THEN mp, OF plain] .
  show ?thesis using h 1 2 3 4 by simp
qed


text \<open>
  Claim C7.  If no plugin that \<open>getAllPlugins(moduleType)\<close> yields (the registered
  plugins after the optional module-type restriction) implements the capability,
  \<open>getActionHandler\<close> fails with a \<open>ParameterError\<close> whose detail holds the requested
  capability and the requested module type; and it fails in no other case.
\<close>

theorem getActionHandler_no_handler:
  "((\<forall>p\<in>set (getAllPlugins moduleType ctx). pluginAction p t = None) \<longrightarrow>
      getActionHandler t moduleType ctx =
        Inl (ParameterError
               (''No handler for '' @ action_string t @ '' configured''
                  @ module_type_suffix '' for module type '' moduleType)
               (HandlerRequest t moduleType)))
   \<and> ((\<exists>e. getActionHandler t moduleType ctx = Inl e) \<longrightarrow>
        (\<forall>p\<in>set (getAllPlugins moduleType ctx). pluginAction p t = None))"
proof (cases "firstWith t (getAllPlugins moduleType ctx)")
  case None
  then have "getActionHandler t moduleType ctx =
        Inl (ParameterError
               (''No handler for '' @ action_string t @ '' configured''
                  @ module_type_suffix '' for module type '' moduleType)
               (HandlerRequest t moduleType))"
    by (simp add: getActionHandler_def)
  moreover from None have "\<forall>p\<in>set (getAllPlugins moduleType ctx). pluginAction p t = None"
    by (simp only: firstWith_None)
  ultimately show ?thesis by blast
next
  case (Some p)
  from firstWith_Some[OF Some] Some show ?thesis
    by (auto simp: getActionHandler_def)
qed

theorem getActionHandler_no_handler_witness:
  "getAllPlugins (Some ''container'') (new_context good_ext) = [example_plugin ''container'']
   \<and> pluginAction (example_plugin ''container'') BuildModule = None
   \<and> getActionHandler BuildModule (Some ''container'') (new_context good_ext) =
       Inl (ParameterError ''No handler for buildModule configured for module type container''
              (HandlerRequest BuildModule (Some ''container'')))"
proof -
  have h: "history good_ext (new_context good_ext) (builtinPlugins good_ext) None"
    unfolding good_ext_def by (rule example_history)
  have b: "builtinPlugins good_ext =
     [example_plugin ''generic'', example_plugin ''container'',
      example_plugin ''function'', example_plugin ''npm-package'']"
    unfolding good_ext_def by (rule example_builtins)
  have ok: "registry_ok (new_context good_ext) (builtinPlugins good_ext)"
    using h by (rule history_registry)
  have all: "getAllPlugins (Some ''container'') (new_context good_ext) = [example_plugin ''container'']"
    unfolding getAllPlugins_scanned[OF ok] b example_order
    by (simp add: spec_eligible_def example_plugin_def)
  have none: "pluginAction (example_plugin ''container'') BuildModule = None"
    by (simp add: example_plugin_def)
  show ?thesis
    using all none
      getActionHandler_no_handler[of "Some ''container''" "new_context good_ext" BuildModule]
    by (simp add: module_type_suffix_def)
qed

section \<open>The handler maps\<close>

text \<open>
  Claim C9.  In every context the operations produce (the constructor, then
  \<open>registerPlugin\<close>, \<open>setEnvironment\<close>, \<open>getModules\<close> and \<open>getServices\<close> in any order), the
  handler map of a capability has an entry under an identifier exactly when a registered
  plugin with that identifier implements the capability, and the entry is that plugin's
  handler.
\<close>

theorem actionHandlers_entry_iff_implemented:
  assumes "history ext ctx regs cur"
  shows "((\<exists>h. map_of (actionHandlers ctx a) n = Some h) \<longleftrightarrow>
            (\<exists>p\<in>set regs. plugin_name p = n \<and> pluginAction p a \<noteq> None))
         \<and> (\<forall>h. map_of (actionHandlers ctx a) n = Some h \<longrightarrow>
               (\<exists>p\<in>set regs. plugin_name p = n \<and> pluginAction p a = Some h))"
proof -
  have ok: "registry_ok ctx regs" using assms by (rule history_registry)
  show ?thesis using stored_handler_iff[OF ok, of a n] by auto
qed

theorem actionHandlers_entry_iff_implemented_witness:
  "history good_ext (new_context good_ext) (builtinPlugins good_ext) None
   \<and> (\<exists>h. map_of (actionHandlers (new_context good_ext) ParseModule) ''container'' = Some h)
   \<and> map_of (actionHandlers (new_context good_ext) BuildModule) ''container'' = None"
proof -
  have h: "history good_ext (new_context good_ext) (builtinPlugins good_ext) None"
    unfolding good_ext_def by (rule example_history)
  have b: "builtinPlugins good_ext =
     [example_plugin ''generic'', example_plugin ''container'',
      example_plugin ''function'', example_plugin ''npm-package'']"
    unfolding good_ext_def by (rule example_builtins)
  have yes: "\<exists>h. map_of (actionHandlers (new_context good_ext) ParseModule) ''container'' = Some h"
    using actionHandlers_entry_iff_implemented[OF h, of ParseModule "''container''"]
    by (simp add: b example_plugin_def)
  have no: "\<not> (\<exists>h. map_of (actionHandlers (new_context good_ext) BuildModule) ''container'' = Some h)"
    using actionHandlers_entry_iff_implemented[OF h, of BuildModule "''container''"]
    by (simp add: b example_plugin_def)
  show ?thesis using h yes no by simp
qed

section \<open>The active environment\<close>

lemma split_not_Nil: "split d s \<noteq> []"
  by (induction s) (simp_all add: Let_def)

lemma join_Cons_Cons: "ps \<noteq> [] \<Longrightarrow> join d ((c # hd ps) # tl ps) = c # join d ps"
proof (cases ps)
  case Nil
  assume "ps \<noteq> []"
  with Nil show ?thesis by simp
next
  case (Cons q qs)
  then show ?thesis by (cases qs) simp_all
qed

lemma join_Nil_Cons: "ps \<noteq> [] \<Longrightarrow> join d ([] # ps) = d @ join d ps"
  by (cases ps) simp_all

lemma join_split: "join [d] (split d s) = s"
  by (induction s) (simp_all add: Let_def split_not_Nil join_Cons_Cons join_Nil_Cons)

lemma hd_split: "hd (split d s) = takeWhile (\<lambda>c. c \<noteq> d) s"
  by (induction s) (simp_all add: Let_def)

lemma join_tl_split:
  "join [d] (tl (split d s)) = drop (Suc (length (takeWhile (\<lambda>c. c \<noteq> d) s))) s"
  by (induction s) (simp_all add: Let_def join_split)

text \<open>
  What \<open>setEnvironment\<close> does on every selector and context.  The name is the selector up
  to its first \<open>.\<close> (the first segment of the split) and the namespace what follows that
  \<open>.\<close> (the remaining segments joined by \<open>.\<close>), or the default namespace when nothing
  follows.  The call succeeds, stores the pair over whatever was stored and returns it,
  when the name is a key of the environments of the project configuration and also when
  it is the name of a property that every object inherits; it fails with a
  \<open>ParameterError\<close> in every other case.
\<close>

lemma setEnvironment_selector:
  "setEnvironment ext selector ctx =
     (let name = takeWhile (\<lambda>c. c \<noteq> CHR ''.'') selector;
          remainder = drop (Suc (length name)) selector;
          ns = (if remainder = [] then DEFAULT_NAMESPACE ext else remainder)
      in if name \<in> fst ` set (environments (config ctx)) \<or> name \<in> set Object_prototype
         then Inr ((name, ns), ctx\<lparr>environment := Some name, namespace := Some ns\<rparr>)
         else Inl (ParameterError (''Could not find environment '' @ selector)
                     (EnvironmentDetail name ns)))"
  by (simp only: setEnvironment_def Let_def hd_split join_tl_split[where d = "CHR ''.''"]
      truthy_js_get map_of_eq_None_iff not_not)

lemma setEnvironment_selector_example:
  "setEnvironment good_ext ''prod.teamA'' prod_context =
     Inr ((''prod'', ''teamA''),
          prod_context\<lparr>environment := Some ''prod'', namespace := Some ''teamA''\<rparr>)
   \<and> setEnvironment good_ext ''prod'' (new_context good_ext) =
     Inr ((''prod'', ''default''), prod_context)
   \<and> setEnvironment good_ext ''bogus'' prod_context =
     Inl (ParameterError ''Could not find environment bogus''
            (EnvironmentDetail ''bogus'' ''default''))"
proof -
  have c: "config (new_context good_ext) = example_project"
    unfolding good_ext_def by (rule example_config)
  have d: "DEFAULT_NAMESPACE good_ext = ''default''"
    by (simp add: good_ext_def example_ext_def)
  have e: "environments (config prod_context) = environments example_project"
    by (simp add: prod_context_def c)
  have 1: "setEnvironment good_ext ''prod.teamA'' prod_context =
     Inr ((''prod'', ''teamA''),
          prod_context\<lparr>environment := Some ''prod'', namespace := Some ''teamA''\<rparr>)"
    using setEnvironment_selector[of good_ext "''prod.teamA''" prod_context]
    by (simp add: e example_project_def Let_def)
  have 2: "setEnvironment good_ext ''prod'' (new_context good_ext) =
     Inr ((''prod'', ''default''), prod_context)"
    using setEnvironment_selector[of good_ext "''prod''" "new_context good_ext"]
    by (simp add: c d example_project_def prod_context_def Let_def)
  have 3: "setEnvironment good_ext ''bogus'' prod_context =
     Inl (ParameterError ''Could not find environment bogus''
            (EnvironmentDetail ''bogus'' ''default''))"
    using setEnvironment_selector[of good_ext "''bogus''" prod_context]
    by (simp add: e d example_project_def Let_def Object_prototype_def)
  show ?thesis using 1 2 3 by simp
qed

text \<open>
  Claim C4: \<open>setEnvironment\<close> fails with a \<open>ParameterError\<close> when the name is not a key of
  the environments of the project configuration.  The code departs from it for a name
  that every object inherits.  The environments of the example project have the keys
  \<open>prod\<close>, \<open>dev\<close> and \<open>mixed\<close>; \<open>setEnvironment("constructor")\<close> on its new context does not
  fail: it returns the pair of \<open>constructor\<close> and the default namespace and stores it as
  the active environment.
\<close>

theorem setEnvironment_inherited_name:
  "map fst (environments (config (new_context good_ext))) = [''prod'', ''dev'', ''mixed'']
   \<and> setEnvironment good_ext ''constructor'' (new_context good_ext) =
       Inr ((''constructor'', ''default''),
            (new_context good_ext)\<lparr>environment := Some ''constructor'',
                                    namespace := Some ''default''\<rparr>)"
proof -
  have c: "config (new_context good_ext) = example_project"
    unfolding good_ext_def by (rule example_config)
  have d: "DEFAULT_NAMESPACE good_ext = ''default''"
    by (simp add: good_ext_def example_ext_def)
  show ?thesis
    by (simp add: setEnvironment_def c d example_project_def Let_def js_get_def
        Object_prototype_def)
qed

lemma prod_history:
  "history good_ext prod_context (builtinPlugins good_ext) (Some (''prod'', ''default''))"
proof -
  have h: "history good_ext (new_context good_ext) (builtinPlugins good_ext) None"
    unfolding good_ext_def by (rule example_history)
  from history.environment_set[OF h setEnvironment_selector_example[THEN conjunct2, THEN conjunct1]]
  show ?thesis .
qed



section \<open>Environment-scoped resolution\<close>

text \<open>
  What the code does in every context the operations produce in which \<open>getEnvironment\<close>
  succeeds (an environment is active).  The lookup of the environment name has a result,
  the provider types are the types of the providers of the environment block (none when
  the lookup yields an inherited property, which has no providers), and
  \<open>getEnvActionHandler\<close> scans the registered plugins in the order in which the plugin map
  is enumerated, restricted by the module type as in global resolution and then to the
  plugins whose identifier is a provider type: it returns the handler of the first of them
  that implements the capability and fails with a \<open>ParameterError\<close> naming capability,
  module type and environment when there is none.  A handler it returns is the handler of
  a registered plugin whose identifier is a provider type.
\<close>

lemma getEnvActionHandler_provider_types:
  assumes "history ext ctx regs cur" and "getEnvironment ctx = Inr env"
  shows "(let types = (case env_config env of
                         Own c \<Rightarrow> map provider_type (values_obj (providers c))
                       | _ \<Rightarrow> []);
              scanned = (if moduleType = Some [] then enumeration_order regs
                         else spec_eligible moduleType (enumeration_order regs));
              considered = filter (\<lambda>p. plugin_name p \<in> set types) scanned
          in truthy (env_config env)
           \<and> getEnvActionHandler t moduleType ctx =
               (case spec_resolve t considered of
                  Some h \<Rightarrow> Inr (Own h)
                | None \<Rightarrow>
                    Inl (ParameterError
                           (''No handler for '' @ action_string t
                              @ '' configured for environment '' @ env_name env
                              @ module_type_suffix '' and module type '' moduleType)
                           (EnvHandlerRequest t moduleType (env_name env))))
           \<and> (\<forall>h. getEnvActionHandler t moduleType ctx = Inr h \<longrightarrow>
                 (\<exists>p\<in>set regs. \<exists>f. plugin_name p \<in> set types \<and> pluginAction p t = Some f
                    \<and> h = Own f)))"
proof -
  have ok: "registry_ok ctx regs" using assms(1) by (rule history_registry)
  define types where "types = (case env_config env of
                         Own c \<Rightarrow> map provider_type (values_obj (providers c))
                       | _ \<Rightarrow> [])"
  define scanned where "scanned = (if moduleType = Some [] then enumeration_order regs
                         else spec_eligible moduleType (enumeration_order regs))"
  define considered where "considered = filter (\<lambda>p. plugin_name p \<in> set types) scanned"
  define e where "e = ParameterError
                       (''No handler for '' @ action_string t
                          @ '' configured for environment '' @ env_name env
                          @ module_type_suffix '' and module type '' moduleType)
                       (EnvHandlerRequest t moduleType (env_name env))"
  have sc: "getAllPlugins moduleType ctx = scanned"
    unfolding scanned_def by (rule getAllPlugins_scanned[OF ok])
  have sub: "set considered \<subseteq> set regs"
    using getAllPlugins_registered[OF ok, of moduleType] by (auto simp: considered_def sc)
  from assms(2) obtain name where en: "environment ctx = Some name"
    and cfg: "env_config env = js_get (environments (config ctx)) name"
    and nm: "env_name env = name"
    by (auto simp: getEnvironment_def split: option.splits if_splits)
  from history_environment[OF assms(1)] en obtain r where "cur = Some r" and "fst r = name"
    and "truthy (js_get (environments (config ctx)) (fst r))"
    by (cases cur) auto
  then have tr: "truthy (env_config env)" by (simp add: cfg)
  have envp: "getEnvPlugins moduleType ctx = Inr considered"
    using tr
    by (cases "env_config env")
       (simp_all add: getEnvPlugins_def assms(2) considered_def types_def sc)
  have "getEnvActionHandler t moduleType ctx =
          (case firstWith t considered of
             Some plugin \<Rightarrow> Inr (js_get (actionHandlers ctx t) (plugin_name plugin))
           | None \<Rightarrow> Inl e)"
    by (simp add: getEnvActionHandler_def envp assms(2) e_def split: option.splits)
  then have res: "getEnvActionHandler t moduleType ctx =
          (case spec_resolve t considered of Some h \<Rightarrow> Inr (Own h) | None \<Rightarrow> Inl e)"
    by (simp add: scan_result[OF ok sub])
  have ret: "\<exists>p\<in>set regs. \<exists>f. plugin_name p \<in> set types \<and> pluginAction p t = Some f \<and> h = Own f"
    if "getEnvActionHandler t moduleType ctx = Inr h" for h
  proof -
    from that res obtain p f where p: "find (\<lambda>p. pluginAction p t \<noteq> None) considered = Some p"
      and f: "pluginAction p t = Some f" and h: "h = Own f"
      by (auto simp: spec_resolve_def e_def split: option.splits)
    from p have "p \<in> set considered" by (auto simp: find_Some_iff)
    with sub f h show ?thesis by (auto simp: considered_def)
  qed
  show ?thesis
    unfolding Let_def
  proof (intro conjI allI impI)
    show "truthy (env_config env)" by (rule tr)
    show "getEnvActionHandler t moduleType ctx =
           (case spec_resolve t
                   (filter (\<lambda>p. plugin_name p \<in> set (case env_config env of
                         Own c \<Rightarrow> map provider_type (values_obj (providers c))
                       | _ \<Rightarrow> []))
                      (if moduleType = Some [] then enumeration_order regs
                       else spec_eligible moduleType (enumeration_order regs))) of
              Some h \<Rightarrow> Inr (Own h)
            | None \<Rightarrow>
                Inl (ParameterError
                       (''No handler for '' @ action_string t
                          @ '' configured for environment '' @ env_name env
                          @ module_type_suffix '' and module type '' moduleType)
                       (EnvHandlerRequest t moduleType (env_name env))))"
      using res unfolding considered_def types_def scanned_def e_def .
    show "\<exists>p\<in>set regs. \<exists>f. plugin_name p \<in> set (case env_config env of
                         Own c \<Rightarrow> map provider_type (values_obj (providers c))
                       | _ \<Rightarrow> []) \<and> pluginAction p t = Some f \<and> h = Own f"
      if "getEnvActionHandler t moduleType ctx = Inr h" for h
      using ret[OF that] unfolding types_def .
  qed
qed

lemma prod_environment:
  "getEnvironment prod_context =
     Inr \<lparr>env_name = ''prod'', env_namespace = Some ''default'',
          env_config = Own \<lparr>providers = [(''build'', \<lparr>provider_type = ''container''\<rparr>)]\<rparr>\<rparr>"
proof -
  have c: "config (new_context good_ext) = example_project"
    unfolding good_ext_def by (rule example_config)
  show ?thesis
    by (simp add: getEnvironment_def prod_context_def c example_project_def js_get_def)
qed

lemma getEnvActionHandler_provider_types_example:
  "getEnvActionHandler ParseModule None prod_context =
       Inr (Own (ParseModuleHandler (example_handler ''container'')))
   \<and> getEnvActionHandler ParseModule (Some ''generic'') prod_context =
       Inl (ParameterError
              ''No handler for parseModule configured for environment prod and module type generic''
              (EnvHandlerRequest ParseModule (Some ''generic'') ''prod''))"
proof -
  have b: "builtinPlugins good_ext =
     [example_plugin ''generic'', example_plugin ''container'',
      example_plugin ''function'', example_plugin ''npm-package'']"
    unfolding good_ext_def by (rule example_builtins)
  note t = getEnvActionHandler_provider_types[OF prod_history prod_environment]
  have v: "values_obj [(''build'', \<lparr>provider_type = ''container''\<rparr>)] =
      [\<lparr>provider_type = ''container''\<rparr>]"
    by (simp add: values_obj_def js_entries_def is_array_index_def)
  have 1: "getEnvActionHandler ParseModule None prod_context =
       Inr (Own (ParseModuleHandler (example_handler ''container'')))"
    using t[where moduleType = None and t = ParseModule, unfolded Let_def, THEN conjunct2,
        THEN conjunct1]
    unfolding b example_order prod_environment
    by (simp add: v spec_eligible_def spec_resolve_def example_plugin_def module_type_suffix_def)
  have 2: "getEnvActionHandler ParseModule (Some ''generic'') prod_context =
       Inl (ParameterError
              ''No handler for parseModule configured for environment prod and module type generic''
              (EnvHandlerRequest ParseModule (Some ''generic'') ''prod''))"
    using t[where moduleType = "Some ''generic''" and t = ParseModule, unfolded Let_def,
        THEN conjunct2, THEN conjunct1]
    unfolding b example_order prod_environment
    by (simp add: v spec_eligible_def spec_resolve_def example_plugin_def module_type_suffix_def)
  show ?thesis using 1 2 by simp
qed





section \<open>Registration\<close>

lemma enumeration_order_snoc:
  "\<not> is_array_index (plugin_name p) \<Longrightarrow>
     enumeration_order (regs @ [p]) = enumeration_order regs @ [p]"
  by (simp add: enumeration_order_def)

lemma getAllPlugins_snoc:
  assumes "registerPlugin ext plugin ctx = Inr ctx'" and "registry_ok ctx regs"
    and "\<not> is_array_index (plugin_name plugin)"
  shows "getAllPlugins moduleType ctx' =
     getAllPlugins moduleType ctx @
       (if (case moduleType of None \<Rightarrow> True
            | Some t \<Rightarrow> t = [] \<or> t \<in> set (supportedModuleTypes plugin))
        then [plugin] else [])"
proof -
  have ok': "registry_ok ctx' (regs @ [plugin])"
    using assms(1,2) by (rule registerPlugin_registry_ok)
  show ?thesis
    unfolding getAllPlugins_scanned[OF ok'] getAllPlugins_scanned[OF assms(2)]
      enumeration_order_snoc[OF assms(3)]
    by (auto simp: spec_eligible_def split: option.splits)
qed

lemma spec_resolve_append:
  "spec_resolve t (ps @ qs) =
     (case spec_resolve t ps of None \<Rightarrow> spec_resolve t qs | Some h \<Rightarrow> Some h)"
  by (induction ps) (auto simp: spec_resolve_def split: option.splits)

lemma spec_resolve_single:
  "spec_resolve t [p] = pluginAction p t"
  by (cases "pluginAction p t") (simp_all add: spec_resolve_def)

lemma spec_resolve_Nil: "spec_resolve t [] = None"
  by (simp add: spec_resolve_def)

lemma getActionHandler_registered:
  assumes "registerPlugin ext plugin ctx = Inr ctx'" and "registry_ok ctx regs"
    and "\<not> is_array_index (plugin_name plugin)"
  shows "getActionHandler a moduleType ctx' =
     (case getActionHandler a moduleType ctx of
        Inr h \<Rightarrow> Inr h
      | Inl e \<Rightarrow>
          (case pluginAction plugin a of
             None \<Rightarrow> Inl e
           | Some f \<Rightarrow>
               if (case moduleType of None \<Rightarrow> True
                   | Some t \<Rightarrow> t = [] \<or> t \<in> set (supportedModuleTypes plugin))
               then Inr (Own f) else Inl e))"
proof -
  have ok': "registry_ok ctx' (regs @ [plugin])"
    using assms(1,2) by (rule registerPlugin_registry_ok)
  show ?thesis
    unfolding getActionHandler_resolve[OF ok'] getActionHandler_resolve[OF assms(2)]
      getAllPlugins_snoc[OF assms] spec_resolve_append
    by (cases "spec_resolve a (getAllPlugins moduleType ctx)")
       (auto simp: spec_resolve_single spec_resolve_Nil split: option.splits)
qed

text \<open>
  Claim C6, as amended.  In every context the operations produce, \<open>registerPlugin\<close>
  (1) fails with the validation error of \<open>Joi.attempt\<close>, which is no \<open>PluginError\<close>, when the
  identifier of the plugin does not satisfy the identifier grammar;
  (2) fails with a \<open>PluginError\<close> naming both plugins when the identifier is valid and a
  plugin with that identifier is registered already;
  (3) succeeds when the identifier is valid, new, and not the name of a property that
  every object inherits.  Then the plugin is the last of the registration order and the
  handler maps gain exactly its handlers under its identifier; and when the identifier is
  not an array index, every resolution that succeeded before gives the same handler, and
  a resolution that failed before gives the handler of the new plugin whenever it
  implements the capability and supports the module type asked for.
\<close>

theorem registerPlugin_outcomes:
  assumes "history ext ctx regs cur"
  shows "(\<not> JoiIdentifier ext (plugin_name plugin) \<longrightarrow>
            registerPlugin ext plugin ctx = Inl (ValidationError (plugin_name plugin))
            \<and> \<not> is_PluginError (ValidationError (plugin_name plugin)))
       \<and> (JoiIdentifier ext (plugin_name plugin) \<longrightarrow>
            (\<forall>previous\<in>set regs. plugin_name previous = plugin_name plugin \<longrightarrow>
               registerPlugin ext plugin ctx =
                 Inl (PluginError
                        (''Plugin '' @ plugin_name plugin @ '' declared more than once'')
                        (PluginConflict (Own previous) plugin))))
       \<and> (JoiIdentifier ext (plugin_name plugin)
            \<and> plugin_name plugin \<notin> plugin_name ` set regs
            \<and> plugin_name plugin \<notin> set Object_prototype \<longrightarrow>
            (\<exists>ctx'. registerPlugin ext plugin ctx = Inr ctx'
               \<and> history ext ctx' (regs @ [plugin]) cur
               \<and> (\<forall>a n. map_of (actionHandlers ctx' a) n =
                     (if n = plugin_name plugin then pluginAction plugin a
                      else map_of (actionHandlers ctx a) n))
               \<and> (\<not> is_array_index (plugin_name plugin) \<longrightarrow>
                    (\<forall>a moduleType. getActionHandler a moduleType ctx' =
                       (case getActionHandler a moduleType ctx of
                          Inr h \<Rightarrow> Inr h
                        | Inl e \<Rightarrow>
                            (case pluginAction plugin a of
                               None \<Rightarrow> Inl e
                             | Some f \<Rightarrow>
                                 if (case moduleType of None \<Rightarrow> True
                                     | Some t \<Rightarrow> t = [] \<or> t \<in> set (supportedModuleTypes plugin))
                                 then Inr (Own f) else Inl e))))))"
proof (intro conjI impI ballI)
  have ok: "registry_ok ctx regs" using assms by (rule history_registry)
  then have pl: "plugins ctx = map (\<lambda>p. (plugin_name p, p)) regs"
    and d: "distinct (map plugin_name regs)" by (simp_all add: registry_ok_def)
  {
    assume "\<not> JoiIdentifier ext (plugin_name plugin)"
    then show "registerPlugin ext plugin ctx = Inl (ValidationError (plugin_name plugin))"
      by (simp add: registerPlugin_def Joi_attempt_def)
    show "\<not> is_PluginError (ValidationError (plugin_name plugin))"
      by (simp add: is_PluginError_def)
  }
  {
    fix previous
    assume v: "JoiIdentifier ext (plugin_name plugin)" and p: "previous \<in> set regs"
      and n: "plugin_name previous = plugin_name plugin"
    from map_of_named[OF d, of "plugin_name plugin" previous] p n
    have "map_of (plugins ctx) (plugin_name plugin) = Some previous" by (simp add: pl)
    then have "js_get (plugins ctx) (plugin_name plugin) = Own previous"
      by (simp add: js_get_Own)
    with v show "registerPlugin ext plugin ctx =
                 Inl (PluginError
                        (''Plugin '' @ plugin_name plugin @ '' declared more than once'')
                        (PluginConflict (Own previous) plugin))"
      by (simp add: registerPlugin_def Joi_attempt_def Let_def)
  }
  {
    assume "JoiIdentifier ext (plugin_name plugin)
            \<and> plugin_name plugin \<notin> plugin_name ` set regs
            \<and> plugin_name plugin \<notin> set Object_prototype"
    then have v: "JoiIdentifier ext (plugin_name plugin)"
      and fresh: "plugin_name plugin \<notin> plugin_name ` set regs"
      and plain: "plugin_name plugin \<notin> set Object_prototype" by simp_all
    from fresh have none: "map_of (plugins ctx) (plugin_name plugin) = None"
      by (simp add: pl map_of_named_None)
    from registerPlugin_fresh[OF v none plain]
    obtain ctx' where r: "registerPlugin ext plugin ctx = Inr ctx'" by blast
    have h': "history ext ctx' (regs @ [plugin]) cur"
      using assms r by (rule history.registered)
    have maps: "map_of (actionHandlers ctx' a) n =
                     (if n = plugin_name plugin then pluginAction plugin a
                      else map_of (actionHandlers ctx a) n)" for a n
    proof -
      have old: "map_of (actionHandlers ctx a) (plugin_name plugin) = None"
        using ok none by (simp add: registry_ok_def)
      show ?thesis
        using old
        by (cases "pluginAction plugin a")
           (simp_all add: registerPlugin_Inr(4)[OF r] AList.update_conv')
    qed
    show "\<exists>ctx'. registerPlugin ext plugin ctx = Inr ctx'
               \<and> history ext ctx' (regs @ [plugin]) cur
               \<and> (\<forall>a n. map_of (actionHandlers ctx' a) n =
                     (if n = plugin_name plugin then pluginAction plugin a
                      else map_of (actionHandlers ctx a) n))
               \<and> (\<not> is_array_index (plugin_name plugin) \<longrightarrow>
                    (\<forall>a moduleType. getActionHandler a moduleType ctx' =
                       (case getActionHandler a moduleType ctx of
                          Inr h \<Rightarrow> Inr h
                        | Inl e \<Rightarrow>
                            (case pluginAction plugin a of
                               None \<Rightarrow> Inl e
                             | Some f \<Rightarrow>
                                 if (case moduleType of None \<Rightarrow> True
                                     | Some t \<Rightarrow> t = [] \<or> t \<in> set (supportedModuleTypes plugin))
                                 then Inr (Own f) else Inl e))))"
    proof (intro exI[of _ ctx'] conjI allI impI)
      show "registerPlugin ext plugin ctx = Inr ctx'" by (rule r)
      show "history ext ctx' (regs @ [plugin]) cur" by (rule h')
      show "map_of (actionHandlers ctx' a) n =
                     (if n = plugin_name plugin then pluginAction plugin a
                      else map_of (actionHandlers ctx a) n)" for a n
        by (rule maps)
      show "getActionHandler a moduleType ctx' =
                       (case getActionHandler a moduleType ctx of
                          Inr h \<Rightarrow> Inr h
                        | Inl e \<Rightarrow>
                            (case pluginAction plugin a of
                               None \<Rightarrow> Inl e
                             | Some f \<Rightarrow>
                                 if (case moduleType of None \<Rightarrow> True
                                     | Some t \<Rightarrow> t = [] \<or> t \<in> set (supportedModuleTypes plugin))
                                 then Inr (Own f) else Inl e))"
        if "\<not> is_array_index (plugin_name plugin)" for a moduleType
        by (rule getActionHandler_registered[OF r ok that])
    qed
  }
qed

theorem registerPlugin_outcomes_witness:
  "history good_ext (new_context good_ext) (builtinPlugins good_ext) None
   \<and> registerPlugin good_ext (example_plugin ''generic'') (new_context good_ext) =
       Inl (PluginError ''Plugin generic declared more than once''
              (PluginConflict (Own (example_plugin ''generic'')) (example_plugin ''generic'')))
   \<and> registerPlugin good_ext (example_plugin ''kubernetes'') (new_context good_ext) =
       Inr kube_context
   \<and> getActionHandler ParseModule (Some ''kubernetes'') kube_context =
       Inr (Own (ParseModuleHandler (example_handler ''kubernetes'')))
   \<and> getActionHandler ParseModule (Some ''generic'') kube_context =
       Inr (Own (ParseModuleHandler (example_handler ''generic'')))"
proof -
  have h: "history good_ext (new_context good_ext) (builtinPlugins good_ext) None"
    unfolding good_ext_def by (rule example_history)
  have b: "builtinPlugins good_ext =
     [example_plugin ''generic'', example_plugin ''container'',
      example_plugin ''function'', example_plugin ''npm-package'']"
    unfolding good_ext_def by (rule example_builtins)
  have j: "JoiIdentifier good_ext = example_identifier"
    by (simp add: good_ext_def example_ext_def)
  have ok: "registry_ok (new_context good_ext) (builtinPlugins good_ext)"
    using h by (rule history_registry)
  have valid1: "JoiIdentifier good_ext (plugin_name (example_plugin ''generic''))"
    by (simp add: j example_plugin_def example_identifier_def)
  have mem: "example_plugin ''generic'' \<in> set (builtinPlugins good_ext)"
    by (simp add: b)
  have same: "plugin_name (example_plugin ''generic'') = plugin_name (example_plugin ''generic'')"
    by (rule refl)
  note t1 = registerPlugin_outcomes[OF h, of "example_plugin ''generic''"]
  from t1[THEN conjunct2, THEN conjunct1, THEN mp, OF valid1, THEN bspec, OF mem, THEN mp, OF same]
  have dup: "registerPlugin good_ext (example_plugin ''generic'') (new_context good_ext) =
       Inl (PluginError ''Plugin generic declared more than once''
              (PluginConflict (Own (example_plugin ''generic'')) (example_plugin ''generic'')))"
    by (simp add: example_plugin_def)
  have valid2: "JoiIdentifier good_ext (plugin_name (example_plugin ''kubernetes''))"
    by (simp add: j example_plugin_def example_identifier_def)
  have fresh: "plugin_name (example_plugin ''kubernetes'')
      \<notin> plugin_name ` set (builtinPlugins good_ext)"
    by (simp add: b example_plugin_def)
  have plain: "plugin_name (example_plugin ''kubernetes'') \<notin> set Object_prototype"
    by (simp add: example_plugin_def Object_prototype_def)
  have noindex: "\<not> is_array_index (plugin_name (example_plugin ''kubernetes''))"
    by (simp add: example_plugin_def is_array_index_def)
  note t2 = registerPlugin_outcomes[OF h, of "example_plugin ''kubernetes''"]
  from t2[THEN conjunct2, THEN conjunct2, THEN mp, OF conjI[OF valid2 conjI[OF fresh plain]]]
  obtain ctx' where r: "registerPlugin good_ext (example_plugin ''kubernetes'')
        (new_context good_ext) = Inr ctx'"
    and res0: "\<not> is_array_index (plugin_name (example_plugin ''kubernetes'')) \<longrightarrow>
               (\<forall>a moduleType. getActionHandler a moduleType ctx' =
                     (case getActionHandler a moduleType (new_context good_ext) of
                        Inr h \<Rightarrow> Inr h
                      | Inl e \<Rightarrow>
                          (case pluginAction (example_plugin ''kubernetes'') a of
                             None \<Rightarrow> Inl e
                           | Some f \<Rightarrow>
                               if (case moduleType of None \<Rightarrow> True
                                   | Some t \<Rightarrow> t = [] \<or> t \<in> set (supportedModuleTypes
                                         (example_plugin ''kubernetes'')))
                               then Inr (Own f) else Inl e)))"
    by (elim exE conjE) (rule that; assumption)
  note res = res0[THEN mp, OF noindex]
  have k: "kube_context = ctx'" by (simp add: kube_context_def r)
  have a1: "getAllPlugins (Some ''kubernetes'') (new_context good_ext) = []"
    unfolding getAllPlugins_scanned[OF ok] b example_order
    by (simp add: spec_eligible_def example_plugin_def)
  have a2: "getAllPlugins (Some ''generic'') (new_context good_ext) = [example_plugin ''generic'']"
    unfolding getAllPlugins_scanned[OF ok] b example_order
    by (simp add: spec_eligible_def example_plugin_def)
  have before1: "getActionHandler ParseModule (Some ''kubernetes'') (new_context good_ext) =
      Inl (ParameterError ''No handler for parseModule configured for module type kubernetes''
             (HandlerRequest ParseModule (Some ''kubernetes'')))"
    by (simp add: getActionHandler_resolve[OF ok] a1 spec_resolve_def module_type_suffix_def)
  have before2: "getActionHandler ParseModule (Some ''generic'') (new_context good_ext) =
      Inr (Own (ParseModuleHandler (example_handler ''generic'')))"
    by (simp add: getActionHandler_resolve[OF ok] a2 spec_resolve_def example_plugin_def)
  have after1: "getActionHandler ParseModule (Some ''kubernetes'') kube_context =
       Inr (Own (ParseModuleHandler (example_handler ''kubernetes'')))"
    using res[THEN spec, THEN spec, of ParseModule "Some ''kubernetes''"]
    by (simp add: k before1 example_plugin_def)
  have after2: "getActionHandler ParseModule (Some ''generic'') kube_context =
       Inr (Own (ParseModuleHandler (example_handler ''generic'')))"
    using res[THEN spec, THEN spec, of ParseModule "Some ''generic''"]
    by (simp add: k before2)
  show ?thesis using h dup r after1 after2 by (simp add: k)
qed

text \<open>
  The identifier \<open>Bad Name\<close> is outside the grammar of the example (lower-case letters,
  digits and dashes).  Registration fails, with the validation error and not with a
  \<open>PluginError\<close>.
\<close>

theorem registerPlugin_invalid_identifier_counterexample:
  "JoiIdentifier good_ext ''Bad Name'' = False
   \<and> registerPlugin good_ext (example_plugin ''Bad Name'') (new_context good_ext) =
       Inl (ValidationError ''Bad Name'')
   \<and> is_PluginError (ValidationError ''Bad Name'') = False"
proof -
  have j: "JoiIdentifier good_ext = example_identifier"
    by (simp add: good_ext_def example_ext_def)
  have bad: "example_identifier ''Bad Name'' = False"
    by (simp add: example_identifier_def)
  show ?thesis
    by (simp add: registerPlugin_def Joi_attempt_def j bad example_plugin_def is_PluginError_def)
qed

text \<open>
  What the amended claim leaves out.  \<open>this.plugins[pluginName]\<close> is tested on an object
  literal, so an identifier that every object inherits counts as registered: registering
  a first plugin \<open>constructor\<close> fails with the \<open>PluginError\<close> for a plugin declared more than
  once, and the previous plugin of its detail is the inherited property.
\<close>

lemma registerPlugin_inherited_name:
  "JoiIdentifier good_ext ''constructor''
   \<and> map fst (plugins (new_context good_ext)) =
       [''generic'', ''container'', ''function'', ''npm-package'']
   \<and> registerPlugin good_ext (example_plugin ''constructor'') (new_context good_ext) =
       Inl (PluginError ''Plugin constructor declared more than once''
              (PluginConflict (Inherited ''constructor'') (example_plugin ''constructor'')))"
proof -
  have h: "history good_ext (new_context good_ext) (builtinPlugins good_ext) None"
    unfolding good_ext_def by (rule example_history)
  have b: "builtinPlugins good_ext =
     [example_plugin ''generic'', example_plugin ''container'',
      example_plugin ''function'', example_plugin ''npm-package'']"
    unfolding good_ext_def by (rule example_builtins)
  have j: "JoiIdentifier good_ext = example_identifier"
    by (simp add: good_ext_def example_ext_def)
  from history_registry[OF h]
  have pl: "plugins (new_context good_ext) =
      map (\<lambda>p. (plugin_name p, p)) (builtinPlugins good_ext)"
    by (simp add: registry_ok_def)
  have keys: "map fst (plugins (new_context good_ext)) =
       [''generic'', ''container'', ''function'', ''npm-package'']"
    by (simp add: pl b example_plugin_def)
  have g: "js_get (plugins (new_context good_ext)) ''constructor'' = Inherited ''constructor''"
    unfolding js_get_Inherited map_of_eq_None_iff set_map[symmetric] keys
    by (simp add: Object_prototype_def)
  have v: "JoiIdentifier good_ext ''constructor''"
    by (simp add: j example_identifier_def)
  have "registerPlugin good_ext (example_plugin ''constructor'') (new_context good_ext) =
       Inl (PluginError ''Plugin constructor declared more than once''
              (PluginConflict (Inherited ''constructor'') (example_plugin ''constructor'')))"
    using v g by (simp add: registerPlugin_def Joi_attempt_def Let_def example_plugin_def)
  with v keys show ?thesis by simp
qed

section \<open>Discovery\<close>

lemma scanLoop_append:
  "scanLoop ext ctx (xs @ ys) s =
     (case scanLoop ext ctx xs s of Inl e \<Rightarrow> Inl e | Inr s' \<Rightarrow> scanLoop ext ctx ys s')"
  by (induction xs arbitrary: s) (simp_all split: sum.splits)

lemma indexServices_append:
  "indexServices m c (xs @ ys) s =
     (case indexServices m c xs s of Inl e \<Rightarrow> Inl e | Inr s' \<Rightarrow> indexServices m c ys s')"
  by (induction xs arbitrary: s) (auto split: property.splits)

lemma set_update_subset: "set (AList.update k v al) \<subseteq> insert (k, v) (set al)"
  by (induction al) auto

lemma indexServices_entries:
  "indexServices m c svcs ss = Inr ss' \<Longrightarrow> s \<in> set ss' \<Longrightarrow>
     s \<in> set ss \<or> (service_module (snd s) = m \<and> fst s \<in> fst ` set svcs)"
proof (induction svcs arbitrary: ss)
  case Nil
  then show ?case by simp
next
  case (Cons kv svcs)
  obtain sn sc where kv: "kv = (sn, sc)" by (cases kv)
  let ?ss1 = "AList.update sn \<lparr>service_module = m, service_config = sc\<rparr> ss"
  from Cons.prems(1) have rest: "indexServices m c svcs ?ss1 = Inr ss'"
    by (auto simp: kv split: property.splits)
  from Cons.IH[OF rest Cons.prems(2)]
  consider "s \<in> set ?ss1" | "service_module (snd s) = m \<and> fst s \<in> fst ` set svcs"
    by blast
  then show ?case
  proof cases
    case 1
    with set_update_subset[of sn "\<lparr>service_module = m, service_config = sc\<rparr>" ss]
    have "s = (sn, \<lparr>service_module = m, service_config = sc\<rparr>) \<or> s \<in> set ss" by blast
    then show ?thesis by (auto simp: kv)
  next
    case 2
    then show ?thesis by simp
  qed
qed

lemma indexItem_other:
  "base (parse ext item) \<noteq> MODULE_CONFIG_FILENAME ext \<Longrightarrow> indexItem ext ctx item s = Inr s"
  by (simp add: indexItem_def Let_def)

lemma indexItem_declaration:
  assumes "base (parse ext item) = MODULE_CONFIG_FILENAME ext"
  shows "indexItem ext ctx item s =
     (case loadModuleConfig ext (dir (parse ext item)) of
        Inl e \<Rightarrow> Inl e
      | Inr c \<Rightarrow>
          if truthy (js_get (fst s) (cfg_name c)) then
            Inl (ConfigurationError
                   (''Module '' @ cfg_name c @ '' is declared multiple times (''
                      @ quoted (rendered (case js_get (fst s) (cfg_name c) of
                                            Own m \<Rightarrow> Some (mod_path m) | _ \<Rightarrow> None))
                      @ '' and ''
                      @ quoted (relative ext (projectRoot ctx) item) @ '')'')
                   (ModulePaths (case js_get (fst s) (cfg_name c) of
                                   Own m \<Rightarrow> Some (mod_path m) | _ \<Rightarrow> None)
                      (relative ext (projectRoot ctx) item)))
          else
            (case getActionHandler ParseModule (Some (cfg_type c)) ctx of
               Inl e \<Rightarrow> Inl e
             | Inr parseHandler \<Rightarrow>
                 (case callParseHandler parseHandler c of
                    Inl e \<Rightarrow> Inl e
                  | Inr m \<Rightarrow>
                      (case indexServices m c
                              (js_entries (case cfg_services c of None \<Rightarrow> [] | Some svcs \<Rightarrow> svcs))
                              (snd s) of
                         Inl e \<Rightarrow> Inl e
                       | Inr services' \<Rightarrow>
                           Inr (AList.update (cfg_name c) m (fst s), services')))))"
  using assms unfolding indexItem_def Let_def by simp

lemma indexItem_declared:
  assumes "indexItem ext ctx item (ms, ss) = Inr (ms', ss')"
    and "item \<in> set items" and "\<forall>s\<in>set ss. declared_in ext items ms s"
  shows "\<forall>s\<in>set ss'. declared_in ext items ms' s"
proof (cases "base (parse ext item) = MODULE_CONFIG_FILENAME ext")
  case False
  with assms(1,3) show ?thesis by (simp add: indexItem_other)
next
  case True
  from assms(1) obtain c h m where c: "loadModuleConfig ext (dir (parse ext item)) = Inr c"
    and nt: "\<not> truthy (js_get ms (cfg_name c))"
    and m: "indexServices m c
              (js_entries (case cfg_services c of None \<Rightarrow> [] | Some svcs \<Rightarrow> svcs)) ss = Inr ss'"
    and ms': "ms' = AList.update (cfg_name c) m ms"
    unfolding indexItem_declaration[OF True]
    by (auto split: sum.splits if_splits)
  from nt have fresh: "map_of ms (cfg_name c) = None" by (simp add: truthy_js_get)
  have look: "map_of ms' k = (if k = cfg_name c then Some m else map_of ms k)" for k
    by (simp add: ms' AList.update_conv')
  show ?thesis
  proof
    fix s assume s: "s \<in> set ss'"
    from indexServices_entries[OF m s]
    consider (old) "s \<in> set ss"
      | (new) "service_module (snd s) = m"
          "fst s \<in> fst ` set (case cfg_services c of None \<Rightarrow> [] | Some svcs \<Rightarrow> svcs)"
      unfolding set_js_entries by blast
    then show "declared_in ext items ms' s"
    proof cases
      case old
      with assms(3) have "declared_in ext items ms s" by blast
      then obtain item0 c0 where i0: "item0 \<in> set items"
        and d0: "base (parse ext item0) = MODULE_CONFIG_FILENAME ext"
          "loadModuleConfig ext (dir (parse ext item0)) = Inr c0"
          "fst s \<in> fst ` set (case cfg_services c0 of None \<Rightarrow> [] | Some svcs \<Rightarrow> svcs)"
        and l0: "map_of ms (cfg_name c0) = Some (service_module (snd s))"
        unfolding declared_in_def by blast
      from l0 fresh have "cfg_name c0 \<noteq> cfg_name c" by auto
      with l0 have "map_of ms' (cfg_name c0) = Some (service_module (snd s))"
        by (simp add: look)
      with i0 d0 show ?thesis unfolding declared_in_def by blast
    next
      case new
      have "map_of ms' (cfg_name c) = Some (service_module (snd s))"
        using new(1) by (simp add: look)
      with new(2) show ?thesis
        unfolding declared_in_def using assms(2) True c by blast
    qed
  qed
qed

lemma scanLoop_declared:
  assumes "scanLoop ext ctx rest (ms, ss) = Inr (ms', ss')"
    and "set rest \<subseteq> set items" and "\<forall>s\<in>set ss. declared_in ext items ms s"
  shows "\<forall>s\<in>set ss'. declared_in ext items ms' s"
  using assms
proof (induction rest arbitrary: ms ss)
  case Nil
  then show ?case by simp
next
  case (Cons item rest)
  from Cons.prems(1) obtain ms1 ss1 where one: "indexItem ext ctx item (ms, ss) = Inr (ms1, ss1)"
    and more: "scanLoop ext ctx rest (ms1, ss1) = Inr (ms', ss')"
    by (auto split: sum.splits)
  from Cons.prems(2) have i: "item \<in> set items" and r: "set rest \<subseteq> set items" by simp_all
  from indexItem_declared[OF one i Cons.prems(3)]
  have "\<forall>s\<in>set ss1. declared_in ext items ms1 s" .
  from Cons.IH[OF more r this] show ?case .
qed

lemma indexes_ok_cong:
  assumes "modules c' = modules c" and "services c' = services c"
    and "projectRoot c' = projectRoot c" and "indexes_ok ext c"
  shows "indexes_ok ext c'"
proof -
  have "scanItems ext c' = scanItems ext c" by (simp add: scanItems_def assms(3))
  with assms(4) show ?thesis
    by (simp add: indexes_ok_def assms(1,2) split: option.splits)
qed

lemma getModules_cached:
  "modules ctx = Some cached \<Longrightarrow>
     getModules ext names ctx scans =
       (Inr (case names of None \<Rightarrow> Whole cached | Some ns \<Rightarrow> Part (pickModules ext cached ns)),
        ctx, scans)"
  by (simp add: getModules_def)

lemma getModules_scan:
  "modules ctx = None \<Longrightarrow>
     getModules ext names ctx scans =
       (case scanLoop ext ctx (scanItems ext ctx) ([], []) of
          Inl e \<Rightarrow> (Inl e, ctx, Suc scans)
        | Inr found \<Rightarrow>
            (Inr (case names of
                    None \<Rightarrow> Whole (fst found)
                  | Some ns \<Rightarrow> Part (pickModules ext (fst found) ns)),
             ctx\<lparr>modules := Some (fst found), services := Some (snd found)\<rparr>, Suc scans))"
  by (auto simp: getModules_def split: sum.splits prod.splits option.splits)

lemma getModules_indexes_ok:
  assumes "getModules ext names ctx scans = (res, ctx', scans')" and "indexes_ok ext ctx"
  shows "indexes_ok ext ctx'"
proof (cases "modules ctx")
  case (Some cached)
  with assms show ?thesis by (simp add: getModules_cached)
next
  case None
  show ?thesis
  proof (cases "scanLoop ext ctx (scanItems ext ctx) ([], [])")
    case (Inl e)
    with assms None show ?thesis by (simp add: getModules_scan)
  next
    case (Inr found)
    obtain ms ss where found: "found = (ms, ss)" by (cases found)
    from assms(1) None Inr
    have ctx': "ctx' = ctx\<lparr>modules := Some ms, services := Some ss\<rparr>"
      by (simp add: getModules_scan found)
    have "\<forall>s\<in>set ss. declared_in ext (scanItems ext ctx) ms s"
      by (rule scanLoop_declared[OF Inr[unfolded found]]) simp_all
    then show ?thesis
      by (simp add: indexes_ok_def ctx' scanItems_def list_all_iff)
  qed
qed

lemma history_indexes_ok: "history ext ctx regs cur \<Longrightarrow> indexes_ok ext ctx"
proof (induction rule: history.induct)
  case (constructed ext root ctx)
  then show ?case by (simp add: indexes_ok_def constructor_Inr)
next
  case (registered ext ctx regs cur plugin ctx')
  from registerPlugin_Inr(8-10)[OF registered.hyps(2)] registered.IH
  show ?case by (simp add: indexes_ok_cong)
next
  case (environment_set ext ctx regs cur selector r ctx')
  obtain n ns where r: "r = (n, ns)" by (cases r)
  from setEnvironment_Inr(1)[OF environment_set.hyps(2)[unfolded r]]
  have "modules ctx' = modules ctx" "services ctx' = services ctx"
    "projectRoot ctx' = projectRoot ctx" by simp_all
  then show ?case using environment_set.IH by (rule indexes_ok_cong)
next
  case (modules_read ext ctx regs cur names scans res ctx' scans')
  then show ?case by (simp add: getModules_indexes_ok)
next
  case (services_read ext ctx regs cur names scans res ctx' scans')
  from getServices_context[OF services_read.hyps(2)] services_read.IH
  show ?case by (auto simp: getModules_indexes_ok)
qed

section \<open>Discovery in the example projects\<close>

lemma example_ext_fields:
  assumes "E = example_ext p d"
  shows "MODULE_CONFIG_FILENAME E = ''garden.yml''"
    and "parse E = example_parse" and "relative E = example_relative"
    and "loadModuleConfig E = (\<lambda>dir. case map_of d dir of
                                  Some c \<Rightarrow> Inr c
                                | None \<Rightarrow> Inl (ConfigurationError ''cannot load'' NoDetail))"
    and "scanItems E (new_context E) =
           concat (map (\<lambda>d. [fst d @ ''/README.md'', fst d @ ''/garden.yml'']) d)"
    and "history E (new_context E) (builtinPlugins E) None"
    and "builtinPlugins E =
     [example_plugin ''generic'', example_plugin ''container'',
      example_plugin ''function'', example_plugin ''npm-package'']"
    and "modules (new_context E) = None"
    and "projectRoot (new_context E) = ''/project''"
    and "pickModules E = (\<lambda>object. example_pick (map fst object))"
proof -
  show "MODULE_CONFIG_FILENAME E = ''garden.yml''" "parse E = example_parse"
    "relative E = example_relative"
    "loadModuleConfig E = (\<lambda>dir. case map_of d dir of
                                  Some c \<Rightarrow> Inr c
                                | None \<Rightarrow> Inl (ConfigurationError ''cannot load'' NoDetail))"
    "pickModules E = (\<lambda>object. example_pick (map fst object))"
    by (simp_all add: assms example_ext_def)
  show h: "history E (new_context E) (builtinPlugins E) None"
    unfolding assms by (rule example_history)
  show "builtinPlugins E =
     [example_plugin ''generic'', example_plugin ''container'',
      example_plugin ''function'', example_plugin ''npm-package'']"
    unfolding assms by (rule example_builtins)
  have c: "constructor E ''/project'' = Inr (new_context E)"
    unfolding assms by (rule example_new_context)
  show "modules (new_context E) = None" by (rule constructor_Inr(4)[OF c])
  show r: "projectRoot (new_context E) = ''/project''" by (rule constructor_Inr(6)[OF c])
  show "scanItems E (new_context E) =
           concat (map (\<lambda>d. [fst d @ ''/README.md'', fst d @ ''/garden.yml'']) d)"
    by (simp add: scanItems_def r) (simp add: assms example_ext_def)
qed

lemma example_parse_declaration:
  "example_parse ''/project/a/garden.yml'' = \<lparr>dir = ''/project/a'', base = ''garden.yml''\<rparr>"
  "example_parse ''/project/b/garden.yml'' = \<lparr>dir = ''/project/b'', base = ''garden.yml''\<rparr>"
  "example_parse ''/project/a/README.md'' = \<lparr>dir = ''/project/a'', base = ''README.md''\<rparr>"
  "example_parse ''/project/b/README.md'' = \<lparr>dir = ''/project/b'', base = ''README.md''\<rparr>"
  by (simp_all add: example_parse_def Let_def)

lemma example_resolution:
  assumes "E = example_ext p d"
  shows "getActionHandler ParseModule (Some ''container'') (new_context E) =
           Inr (Own (ParseModuleHandler (example_handler ''container'')))"
    and "getActionHandler ParseModule (Some ''generic'') (new_context E) =
           Inr (Own (ParseModuleHandler (example_handler ''generic'')))"
proof -
  note f = example_ext_fields[OF assms]
  have ok: "registry_ok (new_context E) (builtinPlugins E)"
    using f(6) by (rule history_registry)
  have a1: "getAllPlugins (Some ''container'') (new_context E) = [example_plugin ''container'']"
    unfolding getAllPlugins_scanned[OF ok] f(7) example_order
    by (simp add: spec_eligible_def example_plugin_def)
  have a2: "getAllPlugins (Some ''generic'') (new_context E) = [example_plugin ''generic'']"
    unfolding getAllPlugins_scanned[OF ok] f(7) example_order
    by (simp add: spec_eligible_def example_plugin_def)
  show "getActionHandler ParseModule (Some ''container'') (new_context E) =
           Inr (Own (ParseModuleHandler (example_handler ''container'')))"
    by (simp add: getActionHandler_resolve[OF ok] a1 spec_resolve_def example_plugin_def)
  show "getActionHandler ParseModule (Some ''generic'') (new_context E) =
           Inr (Own (ParseModuleHandler (example_handler ''generic'')))"
    by (simp add: getActionHandler_resolve[OF ok] a2 spec_resolve_def example_plugin_def)
qed

lemma example_lookups:
  "js_get ([] :: Module obj) ''web'' = Undefined"
  "js_get [(''web'', m)] ''web'' = Own m"
  "js_get [(''web'', m)] ''lib'' = Undefined"
  "js_get ([] :: Service obj) ''api'' = Undefined"
  "js_get [(''api'', s)] ''api'' = Own s"
  "js_entries [(''api'', j)] = [(''api'', j)]"
  "js_entries ([] :: json obj) = []"
  by (simp_all add: js_get_def Object_prototype_def js_entries_def is_array_index_def)

lemma good_scan:
  "scanLoop good_ext (new_context good_ext) (scanItems good_ext (new_context good_ext)) ([], []) =
     Inr ([(''web'', web_module), (''lib'', lib_module)],
          [(''api'', \<lparr>service_module = web_module, service_config = JStr ''api''\<rparr>)])"
proof -
  note f = example_ext_fields[OF good_ext_def]
  note g = example_resolution[OF good_ext_def]
  show ?thesis
    by (simp add: f(1-5) indexItem_def example_parse_declaration example_declaration_def g
        Let_def web_module_def lib_module_def example_lookups)
qed

lemma good_discovery:
  shows "getModules good_ext None (new_context good_ext) 0 =
     (Inr (Whole [(''web'', web_module), (''lib'', lib_module)]), discovered_context, 1)"
  and "modules discovered_context = Some [(''web'', web_module), (''lib'', lib_module)]"
  and "services discovered_context =
         Some [(''api'', \<lparr>service_module = web_module, service_config = JStr ''api''\<rparr>)]"
  and "history good_ext discovered_context (builtinPlugins good_ext) None"
proof -
  note f = example_ext_fields[OF good_ext_def]
  have g: "getModules good_ext None (new_context good_ext) 0 =
     (Inr (Whole [(''web'', web_module), (''lib'', lib_module)]),
      (new_context good_ext)\<lparr>modules := Some [(''web'', web_module), (''lib'', lib_module)],
         services := Some [(''api'', \<lparr>service_module = web_module,
                                     service_config = JStr ''api''\<rparr>)]\<rparr>, 1)"
    by (simp add: getModules_scan[OF f(8)] good_scan)
  have d: "discovered_context =
      (new_context good_ext)\<lparr>modules := Some [(''web'', web_module), (''lib'', lib_module)],
         services := Some [(''api'', \<lparr>service_module = web_module,
                                     service_config = JStr ''api''\<rparr>)]\<rparr>"
    by (simp add: discovered_context_def g)
  show 1: "getModules good_ext None (new_context good_ext) 0 =
     (Inr (Whole [(''web'', web_module), (''lib'', lib_module)]), discovered_context, 1)"
    by (simp add: g d)
  show "modules discovered_context = Some [(''web'', web_module), (''lib'', lib_module)]"
    by (simp add: d)
  show "services discovered_context =
         Some [(''api'', \<lparr>service_module = web_module, service_config = JStr ''api''\<rparr>)]"
    by (simp add: d)
  show "history good_ext discovered_context (builtinPlugins good_ext) None"
    by (rule history.modules_read[OF f(6) 1])
qed

section \<open>The module and service indexes\<close>

text \<open>
  Claim C10.  In every context the operations produce, the service index is set exactly
  when the module index is set, and every entry of the service index is declared: one of
  the scanned items is a module declaration that names the service, and the module index
  holds the owning module of the entry under the name of that declaration.
\<close>

theorem services_owned_by_indexed_modules:
  assumes "history ext ctx regs cur"
  shows "(modules ctx = None \<longleftrightarrow> services ctx = None)
     \<and> (\<forall>ss. services ctx = Some ss \<longrightarrow>
          (\<exists>ms. modules ctx = Some ms
             \<and> (\<forall>s\<in>set ss. declared_in ext (scanItems ext ctx) ms s)))"
  using history_indexes_ok[OF assms]
  by (auto simp: indexes_ok_def list_all_iff split: option.splits)

theorem services_owned_by_indexed_modules_witness:
  "history good_ext discovered_context (builtinPlugins good_ext) None
   \<and> services discovered_context =
         Some [(''api'', \<lparr>service_module = web_module, service_config = JStr ''api''\<rparr>)]
   \<and> modules discovered_context = Some [(''web'', web_module), (''lib'', lib_module)]
   \<and> declared_in good_ext (scanItems good_ext discovered_context)
         [(''web'', web_module), (''lib'', lib_module)]
         (''api'', \<lparr>service_module = web_module, service_config = JStr ''api''\<rparr>)"
proof -
  note t = services_owned_by_indexed_modules[OF good_discovery(4)]
  from t[THEN conjunct2, THEN spec, THEN mp, OF good_discovery(3)]
  obtain ms where ms: "modules discovered_context = Some ms"
    and all: "\<forall>s\<in>set [(''api'', \<lparr>service_module = web_module, service_config = JStr ''api''\<rparr>)].
               declared_in good_ext (scanItems good_ext discovered_context) ms s"
    by (elim exE conjE) (rule that; assumption)
  from ms have "ms = [(''web'', web_module), (''lib'', lib_module)]"
    by (simp add: good_discovery(2))
  with all have "declared_in good_ext (scanItems good_ext discovered_context)
         [(''web'', web_module), (''lib'', lib_module)]
         (''api'', \<lparr>service_module = web_module, service_config = JStr ''api''\<rparr>)"
    by simp
  with good_discovery(2,3,4) show ?thesis by simp
qed

section \<open>Memoisation\<close>

lemma getModules_failed:
  assumes "getModules ext names ctx scans = (Inl e, ctx', scans')"
  shows "modules ctx = None" and "ctx' = ctx" and "scans' = Suc scans"
    and "scanLoop ext ctx (scanItems ext ctx) ([], []) = Inl e"
proof -
  show n: "modules ctx = None"
    using assms by (cases "modules ctx") (simp_all add: getModules_cached)
  from assms show "ctx' = ctx" and "scans' = Suc scans"
    and "scanLoop ext ctx (scanItems ext ctx) ([], []) = Inl e"
    unfolding getModules_scan[OF n] by (auto split: sum.splits)
qed

text \<open>
  Claim C8, as amended.  Take any call of \<open>getModules\<close>.
  If it succeeds, it has started the scanner at most once, and not at all if the index
  was cached already; afterwards the module index is cached, and every later call, on this
  context or on any context with the same cached index, with any scanner, returns that
  index (or what \<open>pick\<close> makes of it for the names asked for) without starting the scanner
  and without changing the context.
  If it fails, the index was not cached, the scanner was started once, and the context is
  left as it was with nothing cached: every later call on it, with any names, starts the
  scanner again and fails with the same error.
\<close>

theorem getModules_memoized:
  assumes "getModules ext names ctx scans = (res, ctx', scans')"
  shows "(\<forall>result. res = Inr result \<longrightarrow>
            (\<exists>cached. modules ctx' = Some cached
               \<and> result = (case names of
                             None \<Rightarrow> Whole cached
                           | Some ns \<Rightarrow> Part (pickModules ext cached ns))
               \<and> scans' \<le> Suc scans
               \<and> (modules ctx \<noteq> None \<longrightarrow> scans' = scans \<and> ctx' = ctx)
               \<and> (\<forall>ext2 names2 c k. modules c = Some cached \<longrightarrow>
                     getModules ext2 names2 c k =
                       (Inr (case names2 of
                               None \<Rightarrow> Whole cached
                             | Some ns \<Rightarrow> Part (pickModules ext2 cached ns)), c, k))))
       \<and> (\<forall>e. res = Inl e \<longrightarrow>
            modules ctx = None \<and> ctx' = ctx \<and> modules ctx' = None \<and> scans' = Suc scans
            \<and> (\<forall>names2 k. getModules ext names2 ctx' k = (Inl e, ctx', Suc k)))"
proof (intro conjI allI impI)
  fix result
  assume r: "res = Inr result"
  show "\<exists>cached. modules ctx' = Some cached
               \<and> result = (case names of
                             None \<Rightarrow> Whole cached
                           | Some ns \<Rightarrow> Part (pickModules ext cached ns))
               \<and> scans' \<le> Suc scans
               \<and> (modules ctx \<noteq> None \<longrightarrow> scans' = scans \<and> ctx' = ctx)
               \<and> (\<forall>ext2 names2 c k. modules c = Some cached \<longrightarrow>
                     getModules ext2 names2 c k =
                       (Inr (case names2 of
                               None \<Rightarrow> Whole cached
                             | Some ns \<Rightarrow> Part (pickModules ext2 cached ns)), c, k))"
  proof (cases "modules ctx")
    case (Some cached)
    with assms r show ?thesis by (auto simp: getModules_cached)
  next
    case None
    with assms r obtain found where
      "scanLoop ext ctx (scanItems ext ctx) ([], []) = Inr found"
      and "result = (case names of
                       None \<Rightarrow> Whole (fst found)
                     | Some ns \<Rightarrow> Part (pickModules ext (fst found) ns))"
      and "ctx' = ctx\<lparr>modules := Some (fst found), services := Some (snd found)\<rparr>"
      and "scans' = Suc scans"
      by (auto simp: getModules_scan split: sum.splits)
    with None show ?thesis by (auto simp: getModules_cached)
  qed
next
  fix e
  assume "res = Inl e"
  with assms have g: "getModules ext names ctx scans = (Inl e, ctx', scans')" by simp
  note f = getModules_failed[OF g]
  show "modules ctx = None" by (rule f(1))
  show "ctx' = ctx" by (rule f(2))
  show "modules ctx' = None" by (simp add: f(1,2))
  show "scans' = Suc scans" by (rule f(3))
  show "getModules ext names2 ctx' k = (Inl e, ctx', Suc k)" for names2 k
    by (simp add: f(2) getModules_scan[OF f(1)] f(4))
qed

section \<open>Duplicate names\<close>

lemma getModules_stops:
  assumes "modules ctx = None" and "scanItems ext ctx = before @ item # rest"
    and "scanLoop ext ctx before ([], []) = Inr found"
    and "indexItem ext ctx item found = Inl e"
  shows "getModules ext names ctx scans = (Inl e, ctx, Suc scans)"
  by (simp add: getModules_scan[OF assms(1)] assms(2) scanLoop_append assms(3) assms(4))

text \<open>
  What the code does at a duplicate, in general.  Let a discovery pass have indexed the
  items before \<open>item\<close> without error, and let \<open>item\<close> be a module declaration that loads
  as \<open>c\<close>.
  (1) If the module index holds a module under the name of \<open>c\<close>, \<open>getModules\<close> fails with
  a \<open>ConfigurationError\<close> whose detail holds the \<open>path\<close> field of that module and the path
  of \<open>item\<close> relative to the project root.
  (2) If the lookup of the name of \<open>c\<close> in the module index finds nothing, its parse
  handler yields the module \<open>m\<close>, the services of \<open>c\<close> enumerated before \<open>sn\<close> are indexed
  without error, and the service index then holds an entry under \<open>sn\<close> (from this module
  or an earlier one), \<open>getModules\<close> fails with a \<open>ConfigurationError\<close> whose detail holds
  \<open>sn\<close>, the name of the module that owns that entry and the name of \<open>c\<close>.
  In both cases the context is left as it was.
\<close>

lemma getModules_duplicate_names:
  assumes "modules ctx = None" and "scanItems ext ctx = before @ item # rest"
    and "scanLoop ext ctx before ([], []) = Inr (ms, ss)"
    and "base (parse ext item) = MODULE_CONFIG_FILENAME ext"
    and "loadModuleConfig ext (dir (parse ext item)) = Inr c"
  shows "(\<forall>previous. map_of ms (cfg_name c) = Some previous \<longrightarrow>
            getModules ext names ctx scans =
              (Inl (ConfigurationError
                      (''Module '' @ cfg_name c @ '' is declared multiple times (''
                         @ quoted (mod_path previous) @ '' and ''
                         @ quoted (relative ext (projectRoot ctx) item) @ '')'')
                      (ModulePaths (Some (mod_path previous))
                         (relative ext (projectRoot ctx) item))),
               ctx, Suc scans))
     \<and> (\<forall>h m earlier sn sc later ss' owner.
            \<not> truthy (js_get ms (cfg_name c))
            \<and> getActionHandler ParseModule (Some (cfg_type c)) ctx = Inr h
            \<and> callParseHandler h c = Inr m
            \<and> js_entries (case cfg_services c of None \<Rightarrow> [] | Some svcs \<Rightarrow> svcs) =
                earlier @ (sn, sc) # later
            \<and> indexServices m c earlier ss = Inr ss'
            \<and> map_of ss' sn = Some owner \<longrightarrow>
            getModules ext names ctx scans =
              (Inl (ConfigurationError
                      (''Service names must be unique - '' @ sn
                         @ '' is declared multiple times (in ''
                         @ quoted (mod_name (service_module owner)) @ '' and ''
                         @ quoted (cfg_name c) @ '')'')
                      (ServiceModules sn (mod_name (service_module owner)) (cfg_name c))),
               ctx, Suc scans))"
proof (intro conjI allI impI)
  fix previous
  assume "map_of ms (cfg_name c) = Some previous"
  then have "js_get ms (cfg_name c) = Own previous" by (simp add: js_get_Own)
  then have "indexItem ext ctx item (ms, ss) =
      Inl (ConfigurationError
                      (''Module '' @ cfg_name c @ '' is declared multiple times (''
                         @ quoted (mod_path previous) @ '' and ''
                         @ quoted (relative ext (projectRoot ctx) item) @ '')'')
                      (ModulePaths (Some (mod_path previous))
                         (relative ext (projectRoot ctx) item)))"
    by (simp add: indexItem_declaration[OF assms(4)] assms(5) rendered_def)
  from getModules_stops[OF assms(1,2,3) this]
  show "getModules ext names ctx scans =
              (Inl (ConfigurationError
                      (''Module '' @ cfg_name c @ '' is declared multiple times (''
                         @ quoted (mod_path previous) @ '' and ''
                         @ quoted (relative ext (projectRoot ctx) item) @ '')'')
                      (ModulePaths (Some (mod_path previous))
                         (relative ext (projectRoot ctx) item))),
               ctx, Suc scans)" .
next
  fix h m earlier sn sc later ss' owner
  assume a: "\<not> truthy (js_get ms (cfg_name c))
            \<and> getActionHandler ParseModule (Some (cfg_type c)) ctx = Inr h
            \<and> callParseHandler h c = Inr m
            \<and> js_entries (case cfg_services c of None \<Rightarrow> [] | Some svcs \<Rightarrow> svcs) =
                earlier @ (sn, sc) # later
            \<and> indexServices m c earlier ss = Inr ss'
            \<and> map_of ss' sn = Some owner"
  then have fresh: "\<not> truthy (js_get ms (cfg_name c))"
    and h: "getActionHandler ParseModule (Some (cfg_type c)) ctx = Inr h"
    and m: "callParseHandler h c = Inr m"
    and svcs: "js_entries (case cfg_services c of None \<Rightarrow> [] | Some svcs \<Rightarrow> svcs) =
                earlier @ (sn, sc) # later"
    and e: "indexServices m c earlier ss = Inr ss'" and o: "map_of ss' sn = Some owner"
    by simp_all
  from o have o': "js_get ss' sn = Own owner" by (simp add: js_get_Own)
  have svc: "indexServices m c (earlier @ (sn, sc) # later) ss =
      Inl (ConfigurationError
                      (''Service names must be unique - '' @ sn
                         @ '' is declared multiple times (in ''
                         @ quoted (mod_name (service_module owner)) @ '' and ''
                         @ quoted (cfg_name c) @ '')'')
                      (ServiceModules sn (mod_name (service_module owner)) (cfg_name c)))"
    by (simp add: indexServices_append e o')
  have "indexItem ext ctx item (ms, ss) =
      Inl (ConfigurationError
                      (''Service names must be unique - '' @ sn
                         @ '' is declared multiple times (in ''
                         @ quoted (mod_name (service_module owner)) @ '' and ''
                         @ quoted (cfg_name c) @ '')'')
                      (ServiceModules sn (mod_name (service_module owner)) (cfg_name c)))"
    by (simp add: indexItem_declaration[OF assms(4)] assms(5) fresh h m svcs svc)
  from getModules_stops[OF assms(1,2,3) this]
  show "getModules ext names ctx scans =
              (Inl (ConfigurationError
                      (''Service names must be unique - '' @ sn
                         @ '' is declared multiple times (in ''
                         @ quoted (mod_name (service_module owner)) @ '' and ''
                         @ quoted (cfg_name c) @ '')'')
                      (ServiceModules sn (mod_name (service_module owner)) (cfg_name c))),
               ctx, Suc scans)" .
qed

lemma twice_before:
  "scanLoop twice_ext (new_context twice_ext)
     [''/project/a/README.md'', ''/project/a/garden.yml'', ''/project/b/README.md''] ([], []) =
     Inr ([(''web'', web_module)],
          [(''api'', \<lparr>service_module = web_module, service_config = JStr ''api''\<rparr>)])"
proof -
  note f = example_ext_fields[OF twice_ext_def]
  note g = example_resolution[OF twice_ext_def]
  show ?thesis
    by (simp add: f(1-4) indexItem_def example_parse_declaration example_declaration_def g
        Let_def web_module_def example_lookups)
qed

lemma clash_before:
  "scanLoop clash_ext (new_context clash_ext)
     [''/project/a/README.md'', ''/project/a/garden.yml'', ''/project/b/README.md''] ([], []) =
     Inr ([(''web'', web_module)],
          [(''api'', \<lparr>service_module = web_module, service_config = JStr ''api''\<rparr>)])"
proof -
  note f = example_ext_fields[OF clash_ext_def]
  note g = example_resolution[OF clash_ext_def]
  show ?thesis
    by (simp add: f(1-4) indexItem_def example_parse_declaration example_declaration_def g
        Let_def web_module_def example_lookups)
qed

lemma example_items:
  assumes "E = example_ext p [(''/project/a'', ca), (''/project/b'', cb)]"
  shows "scanItems E (new_context E) =
     [''/project/a/README.md'', ''/project/a/garden.yml'', ''/project/b/README.md'']
       @ ''/project/b/garden.yml'' # []"
    and "base (parse E ''/project/b/garden.yml'') = MODULE_CONFIG_FILENAME E"
    and "loadModuleConfig E (dir (parse E ''/project/b/garden.yml'')) = Inr cb"
    and "relative E (projectRoot (new_context E)) ''/project/b/garden.yml'' = ''b/garden.yml''"
    and "relative E (projectRoot (new_context E)) ''/project/a/garden.yml'' = ''a/garden.yml''"
    and "relative E (projectRoot (new_context E)) ''/project/a'' = ''a''"
proof -
  note f = example_ext_fields[OF assms]
  show "scanItems E (new_context E) =
     [''/project/a/README.md'', ''/project/a/garden.yml'', ''/project/b/README.md'']
       @ ''/project/b/garden.yml'' # []"
    by (simp add: f(5))
  show "base (parse E ''/project/b/garden.yml'') = MODULE_CONFIG_FILENAME E"
    by (simp add: f(1,2) example_parse_declaration)
  show "loadModuleConfig E (dir (parse E ''/project/b/garden.yml'')) = Inr cb"
    by (simp add: f(2,4) example_parse_declaration)
  show "relative E (projectRoot (new_context E)) ''/project/b/garden.yml'' = ''b/garden.yml''"
    "relative E (projectRoot (new_context E)) ''/project/a/garden.yml'' = ''a/garden.yml''"
    "relative E (projectRoot (new_context E)) ''/project/a'' = ''a''"
    by (simp_all add: f(3,9) example_relative_def)
qed

lemma twice_ext_eq:
  "twice_ext = example_ext example_project
     [(''/project/a'', snd (example_declaration ''/project/a'' ''web'' ''container'' [''api''])),
      (''/project/b'', snd (example_declaration ''/project/b'' ''web'' ''generic'' []))]"
  by (simp add: twice_ext_def example_declaration_def)

lemma clash_ext_eq:
  "clash_ext = example_ext example_project
     [(''/project/a'', snd (example_declaration ''/project/a'' ''web'' ''container'' [''api''])),
      (''/project/b'', snd (example_declaration ''/project/b'' ''lib'' ''generic'' [''api'']))]"
  by (simp add: clash_ext_def example_declaration_def)

lemma twice_discovery:
  "getModules twice_ext names (new_context twice_ext) k =
     (Inl (ConfigurationError
             (''Module web is declared multiple times ('' @ quoted ''/project/a'' @ '' and ''
                @ quoted ''b/garden.yml'' @ '')'')
             (ModulePaths (Some ''/project/a'') ''b/garden.yml'')),
      new_context twice_ext, Suc k)"
proof -
  note f = example_ext_fields[OF twice_ext_def]
  note i = example_items[OF twice_ext_eq]
  have "indexItem twice_ext (new_context twice_ext) ''/project/b/garden.yml''
          ([(''web'', web_module)],
           [(''api'', \<lparr>service_module = web_module, service_config = JStr ''api''\<rparr>)]) =
     Inl (ConfigurationError
             (''Module web is declared multiple times ('' @ quoted ''/project/a'' @ '' and ''
                @ quoted ''b/garden.yml'' @ '')'')
             (ModulePaths (Some ''/project/a'') ''b/garden.yml''))"
    by (simp add: indexItem_declaration[OF i(2)] i(3,4) example_declaration_def web_module_def
        example_handler_def example_lookups rendered_def)
  from getModules_stops[OF f(8) i(1) twice_before this] show ?thesis .
qed

lemma clash_discovery:
  "getModules clash_ext names (new_context clash_ext) k =
     (Inl (ConfigurationError
             (''Service names must be unique - api is declared multiple times (in ''
                @ quoted ''web'' @ '' and '' @ quoted ''lib'' @ '')'')
             (ServiceModules ''api'' ''web'' ''lib'')),
      new_context clash_ext, Suc k)"
proof -
  note f = example_ext_fields[OF clash_ext_def]
  note i = example_items[OF clash_ext_eq]
  note g = example_resolution[OF clash_ext_def]
  have "indexItem clash_ext (new_context clash_ext) ''/project/b/garden.yml''
          ([(''web'', web_module)],
           [(''api'', \<lparr>service_module = web_module, service_config = JStr ''api''\<rparr>)]) =
     Inl (ConfigurationError
             (''Service names must be unique - api is declared multiple times (in ''
                @ quoted ''web'' @ '' and '' @ quoted ''lib'' @ '')'')
             (ServiceModules ''api'' ''web'' ''lib''))"
    by (simp add: indexItem_declaration[OF i(2)] i(3,4) example_declaration_def web_module_def
        example_handler_def example_lookups g)
  from getModules_stops[OF f(8) i(1) clash_before this] show ?thesis .
qed

theorem getModules_memoized_witness:
  "getModules good_ext None (new_context good_ext) 0 =
     (Inr (Whole [(''web'', web_module), (''lib'', lib_module)]), discovered_context, 1)
   \<and> getModules good_ext None discovered_context 1 =
     (Inr (Whole [(''web'', web_module), (''lib'', lib_module)]), discovered_context, 1)
   \<and> getModules twice_ext (Some [''lib'', ''missing'']) discovered_context 1 =
     (Inr (Part (JArr [JStr ''lib''])), discovered_context, 1)
   \<and> getModules clash_ext None (new_context clash_ext) 0 =
     (Inl (ConfigurationError
             (''Service names must be unique - api is declared multiple times (in ''
                @ quoted ''web'' @ '' and '' @ quoted ''lib'' @ '')'')
             (ServiceModules ''api'' ''web'' ''lib'')),
      new_context clash_ext, 1)
   \<and> getModules clash_ext (Some [''web'']) (new_context clash_ext) 1 =
     (Inl (ConfigurationError
             (''Service names must be unique - api is declared multiple times (in ''
                @ quoted ''web'' @ '' and '' @ quoted ''lib'' @ '')'')
             (ServiceModules ''api'' ''web'' ''lib'')),
      new_context clash_ext, 2)"
proof -
  note t = getModules_memoized[OF good_discovery(1)]
  from t[THEN conjunct1, THEN spec, THEN mp, OF refl]
  obtain cached where c: "modules discovered_context = Some cached"
    and later: "\<forall>ext2 names2 c k. modules c = Some cached \<longrightarrow>
           getModules ext2 names2 c k =
             (Inr (case names2 of
                     None \<Rightarrow> Whole cached
                   | Some ns \<Rightarrow> Part (pickModules ext2 cached ns)), c, k)"
    by (elim exE conjE) (rule that; assumption)
  have cached: "cached = [(''web'', web_module), (''lib'', lib_module)]"
    using c by (simp add: good_discovery(2))
  have p: "pickModules twice_ext = (\<lambda>object. example_pick (map fst object))"
    by (rule example_ext_fields(10)[OF twice_ext_def])
  have 2: "getModules good_ext None discovered_context 1 =
     (Inr (Whole [(''web'', web_module), (''lib'', lib_module)]), discovered_context, 1)"
    using later[THEN spec, THEN spec, THEN spec, THEN spec, THEN mp, OF c, of good_ext None 1]
    by (simp add: cached)
  have 3: "getModules twice_ext (Some [''lib'', ''missing'']) discovered_context 1 =
     (Inr (Part (JArr [JStr ''lib''])), discovered_context, 1)"
    using later[THEN spec, THEN spec, THEN spec, THEN spec, THEN mp, OF c,
        of twice_ext "Some [''lib'', ''missing'']" 1]
    by (simp add: cached p example_pick_def)
  note u = getModules_memoized[OF clash_discovery[of None 0]]
  from u[THEN conjunct2, THEN spec, THEN mp, OF refl]
  have again: "\<forall>names2 k. getModules clash_ext names2 (new_context clash_ext) k =
      (Inl (ConfigurationError
             (''Service names must be unique - api is declared multiple times (in ''
                @ quoted ''web'' @ '' and '' @ quoted ''lib'' @ '')'')
             (ServiceModules ''api'' ''web'' ''lib'')),
       new_context clash_ext, Suc k)"
    by (elim conjE)
  have 4: "getModules clash_ext None (new_context clash_ext) 0 =
     (Inl (ConfigurationError
             (''Service names must be unique - api is declared multiple times (in ''
                @ quoted ''web'' @ '' and '' @ quoted ''lib'' @ '')'')
             (ServiceModules ''api'' ''web'' ''lib'')),
      new_context clash_ext, 1)"
    using again[THEN spec, THEN spec, of None 0] by simp
  have 5: "getModules clash_ext (Some [''web'']) (new_context clash_ext) 1 =
     (Inl (ConfigurationError
             (''Service names must be unique - api is declared multiple times (in ''
                @ quoted ''web'' @ '' and '' @ quoted ''lib'' @ '')'')
             (ServiceModules ''api'' ''web'' ''lib'')),
      new_context clash_ext, 2)"
    using again[THEN spec, THEN spec, of "Some [''web'']" 1] by simp
  show ?thesis using good_discovery(1) 2 3 4 5 by simp
qed

text \<open>
  A pass that fails caches nothing: two calls of \<open>getModules\<close> on the same context, in the
  project that declares \<open>web\<close> twice, start the scanner twice.
\<close>

theorem getModules_scans_twice_counterexample:
  "getModules twice_ext None (new_context twice_ext) 0 =
     (Inl (ConfigurationError
             (''Module web is declared multiple times ('' @ quoted ''/project/a'' @ '' and ''
                @ quoted ''b/garden.yml'' @ '')'')
             (ModulePaths (Some ''/project/a'') ''b/garden.yml'')),
      new_context twice_ext, 1)
   \<and> getModules twice_ext None (new_context twice_ext) 1 =
     (Inl (ConfigurationError
             (''Module web is declared multiple times ('' @ quoted ''/project/a'' @ '' and ''
                @ quoted ''b/garden.yml'' @ '')'')
             (ModulePaths (Some ''/project/a'') ''b/garden.yml'')),
      new_context twice_ext, 2)"
  using twice_discovery[of None 0] twice_discovery[of None 1] by simp

text \<open>
  Claim C3: a second declaration of an indexed module name fails with a
  \<open>ConfigurationError\<close> naming both relative paths.  The code departs from it in the first
  path.  In the example, \<open>/project/a/garden.yml\<close> and \<open>/project/b/garden.yml\<close> both declare
  the module \<open>web\<close>, and the parse handler keeps the directory of the declaration as the
  \<open>path\<close> of the module.  The first declaration is \<open>a/garden.yml\<close> relative to the project
  root (its directory is \<open>a\<close>); the error names \<open>/project/a\<close>, the \<open>path\<close> of the indexed
  module as it is, next to the relative path \<open>b/garden.yml\<close> of the second file.
\<close>

theorem getModules_first_path_not_relative:
  "getModules twice_ext None (new_context twice_ext) 0 =
     (Inl (ConfigurationError
             (''Module web is declared multiple times ('' @ quoted ''/project/a'' @ '' and ''
                @ quoted ''b/garden.yml'' @ '')'')
             (ModulePaths (Some ''/project/a'') ''b/garden.yml'')),
      new_context twice_ext, 1)
   \<and> relative twice_ext (projectRoot (new_context twice_ext)) ''/project/a/garden.yml'' = ''a/garden.yml''
   \<and> relative twice_ext (projectRoot (new_context twice_ext)) ''/project/a'' = ''a''"
  using twice_discovery[of None 0] example_items(5,6)[OF twice_ext_eq] by simp

end
